theory Spec2Isabelle
  imports Complex_Main
begin

section \<open>World streaming grid of \<open>AdvancedWorldSystem.ts\<close>\<close>

text \<open>
  The class \<open>AdvancedWorldSystem\<close> keeps a map \<open>chunks\<close> from string keys to chunk
  objects, a set \<open>loadedChunks\<close> of the same keys, the last player position and its
  configuration. Every frame \<open>updateChunkLoading\<close> loads the square of chunks around the
  player's chunk and unloads the chunks that are further away than the render distance
  plus one.

  Numbers. World coordinates and \<open>chunkSize\<close> are JavaScript numbers; they are modelled
  as reals (rounding of the IEEE operations is not modelled, and neither are \<open>NaN\<close> and
  the infinities). Chunk indices are the results of \<open>Math.floor\<close> and are modelled as
  unbounded integers; \<open>renderDistance\<close> is a number of chunks and is modelled as an
  integer as well.
\<close>

subsection \<open>Chunk keys: template literals, \<open>split\<close> and \<open>Number\<close>\<close>

text \<open>
  A key is the template literal \<open>`${chunkX},${chunkZ}`\<close>: the decimal rendering of the
  two integers, with a minus sign for a negative one, separated by a comma.
\<close>

definition digit_char :: "nat \<Rightarrow> char" where
  "digit_char d = char_of (48 + d)"

function show_nat :: "nat \<Rightarrow> string" where
  "show_nat n =
     (if n < 10 then [digit_char n] else show_nat (n div 10) @ [digit_char (n mod 10)])"
  by pat_completeness auto
termination
  by (relation "measure id") auto

declare show_nat.simps [simp del]

definition show_int :: "int \<Rightarrow> string" where
  "show_int i = (if i < 0 then CHR ''-'' # show_nat (nat (- i)) else show_nat (nat i))"

definition chunkKey :: "int \<Rightarrow> int \<Rightarrow> string" where
  "chunkKey cx cz = show_int cx @ '','' @ show_int cz"

text \<open>\<open>s.split(',')\<close>: the pieces of \<open>s\<close> between the commas; the empty string gives one
  empty piece.\<close>

fun split_comma :: "string \<Rightarrow> string list" where
  "split_comma [] = [[]]"
| "split_comma (c # cs) =
     (if c = CHR '','' then [] # split_comma cs
      else (case split_comma cs of [] \<Rightarrow> [[c]] | p # ps \<Rightarrow> (c # p) # ps))"

definition is_digit :: "char \<Rightarrow> bool" where
  "is_digit c = (48 \<le> (of_char c :: nat) \<and> (of_char c :: nat) \<le> 57)"

definition digit_val :: "char \<Rightarrow> nat" where
  "digit_val c = of_char c - 48"

definition digits_value :: "string \<Rightarrow> nat option" where
  "digits_value s =
     (if s \<noteq> [] \<and> list_all is_digit s
      then Some (foldl (\<lambda>a c. a * 10 + digit_val c) 0 s) else None)"

text \<open>
  \<open>Number(s)\<close> on the strings that occur as pieces of a key: a run of decimal digits
  with an optional leading minus sign gives that integer, and the empty string gives 0.
  \<open>None\<close> stands for \<open>NaN\<close>. JavaScript also reads other numeric literals (white space
  around the digits, a leading plus sign, exponents, fractions, hexadecimal); these are
  \<open>None\<close> here as well, and no key written by \<open>loadChunk\<close> has such a piece.
\<close>

definition Number :: "string \<Rightarrow> int option" where
  "Number s =
     (case s of
        [] \<Rightarrow> Some 0
      | c # cs \<Rightarrow>
          if c = CHR ''-'' then map_option (\<lambda>n. - int n) (digits_value cs)
          else map_option int (digits_value s))"

subsection \<open>Data\<close>

datatype Vector3 = Vector3 (vec_x: real) (vec_y: real) (vec_z: real)

record WorldConfig =
  chunkSize :: real
  renderDistance :: int
  maxChunks :: int
  enableDynamicLoading :: bool
  enableLOD :: bool

text \<open>A material of the engine: its name, and the two properties the class sets
  (\<open>None\<close> when the class leaves the engine's default).\<close>

record PBRMaterial =
  material_name :: string
  albedoColor :: "(real \<times> real \<times> real) option"
  roughness :: "real option"

text \<open>A ground mesh of the engine: its name, its position, its vertex positions (the
  \<open>position\<close> vertex data, one triple per vertex), its material and the mass and
  restitution of its physics impostor.\<close>

record Mesh =
  mesh_name :: string
  mesh_position :: Vector3
  vertices :: "(real \<times> real \<times> real) list"
  material :: "PBRMaterial option"
  physicsImpostor :: "(real \<times> real) option"

text \<open>The object \<open>generateChunk\<close> returns.\<close>

record chunk =
  mesh :: Mesh
  biome :: string
  position :: Vector3

text \<open>The calls into the engine and the console that the class makes, in the order in
  which it makes them.\<close>

datatype effect =
    NoiseTextureCreated
  | GroundCreated string real real nat
  | MaterialCreated string
  | ImpostorCreated string
  | MeshDisposed string
  | LogLoaded string
  | LogUnloaded string

typedecl environment

text \<open>
  The fields of the class. The JavaScript \<open>Set\<close> of loaded keys is a list without
  repetitions in insertion order, which is the order \<open>forEach\<close> visits it in.
\<close>

record world =
  config :: WorldConfig
  chunks :: "string \<rightharpoonup> chunk"
  playerPosition :: Vector3
  loadedChunks :: "string list"
  environments :: "string \<rightharpoonup> environment"

definition set_has :: "string list \<Rightarrow> string \<Rightarrow> bool" where
  "set_has ks k = (k \<in> set ks)"

definition set_add :: "string list \<Rightarrow> string \<Rightarrow> string list" where
  "set_add ks k = (if k \<in> set ks then ks else ks @ [k])"

definition set_delete :: "string list \<Rightarrow> string \<Rightarrow> string list" where
  "set_delete ks k = removeAll k ks"

text \<open>The state the field initialisers of the class set up.\<close>

definition initial_world :: "WorldConfig \<Rightarrow> (string \<rightharpoonup> environment) \<Rightarrow> world" where
  "initial_world cfg envs =
     \<lparr>config = cfg, chunks = Map.empty, playerPosition = Vector3 0 0 0,
      loadedChunks = [], environments = envs\<rparr>"

subsection \<open>The world generator\<close>

text \<open>The remainder operator \<open>%\<close> of JavaScript truncates the quotient towards zero, so
  the result has the sign of the dividend.\<close>

definition trunc :: "real \<Rightarrow> int" where
  "trunc a = (if a < 0 then \<lceil>a\<rceil> else \<lfloor>a\<rfloor>)"

definition js_rem :: "real \<Rightarrow> real \<Rightarrow> real" where
  "js_rem a b = a - b * of_int (trunc (a / b))"

text \<open>\<open>getHeight\<close> creates a noise texture that it never reads, and returns the sum of
  three products of a sine and a cosine.\<close>

definition getHeight :: "real \<Rightarrow> real \<Rightarrow> real \<times> effect list" where
  "getHeight wx wz =
     (let nx = js_rem (wx / 100) 1;
          nz = js_rem (wz / 100) 1;
          height = 0;
          height = height + sin (nx * 10) * cos (nz * 10) * 20;
          height = height + sin (nx * 20) * cos (nz * 20) * 10;
          height = height + sin (nx * 40) * cos (nz * 40) * 5
      in (height, [NoiseTextureCreated]))"

definition getBiome :: "real \<Rightarrow> real \<Rightarrow> string" where
  "getBiome wx wz =
     (let distance = sqrt (wx * wx + wz * wz)
      in if distance < 100 then ''village''
         else if distance < 300 then ''forest''
         else if distance < 500 then ''mountains''
         else ''desert'')"

text \<open>
  \<open>applyHeightMap\<close>: the loop over the vertex data, three numbers per vertex, replaces the
  second coordinate of every vertex by the height at the vertex's world coordinates. A
  ground always has position data, so the test \<open>if (vertices)\<close> of the source succeeds.
\<close>

fun applyHeightMap_loop ::
  "real \<Rightarrow> int \<Rightarrow> int \<Rightarrow> (real \<times> real \<times> real) list \<Rightarrow> (real \<times> real \<times> real) list \<times> effect list"
where
  "applyHeightMap_loop cs cx cz [] = ([], [])"
| "applyHeightMap_loop cs cx cz ((v0, v1, v2) # vs) =
     (let wx = v0 + of_int cx * cs;
          wz = v2 + of_int cz * cs;
          (height, e) = getHeight wx wz;
          (vs', es) = applyHeightMap_loop cs cx cz vs
      in ((v0, height, v2) # vs', e @ es))"

definition applyHeightMap :: "WorldConfig \<Rightarrow> Mesh \<Rightarrow> int \<Rightarrow> int \<Rightarrow> Mesh \<times> effect list" where
  "applyHeightMap cfg ground cx cz =
     (let (vs, es) = applyHeightMap_loop (chunkSize cfg) cx cz (vertices ground)
      in (ground\<lparr>vertices := vs\<rparr>, es))"

definition applyBiomeMaterials :: "Mesh \<Rightarrow> string \<Rightarrow> Mesh \<times> effect list" where
  "applyBiomeMaterials ground b =
     (let m = \<lparr>material_name = ''biome_'' @ b @ ''_mat'', albedoColor = None, roughness = None\<rparr>;
          m = (if b = ''village'' then m\<lparr>albedoColor := Some (0.6, 0.5, 0.3), roughness := Some 0.8\<rparr>
               else if b = ''forest'' then m\<lparr>albedoColor := Some (0.2, 0.4, 0.1), roughness := Some 0.9\<rparr>
               else if b = ''mountains'' then m\<lparr>albedoColor := Some (0.5, 0.5, 0.5), roughness := Some 0.7\<rparr>
               else if b = ''desert'' then m\<lparr>albedoColor := Some (0.8, 0.7, 0.5), roughness := Some 0.6\<rparr>
               else m)
      in (ground\<lparr>material := Some m\<rparr>, [MaterialCreated (material_name m)]))"

text \<open>
  \<open>MeshBuilder.CreateGround\<close> is the engine's; \<open>G width height subdivisions\<close> stands for
  the vertex positions of the ground it builds, and is a parameter of the model.
\<close>

type_synonym ground_builder = "real \<Rightarrow> real \<Rightarrow> nat \<Rightarrow> (real \<times> real \<times> real) list"

definition generateChunk ::
  "ground_builder \<Rightarrow> WorldConfig \<Rightarrow> int \<Rightarrow> int \<Rightarrow> chunk \<times> effect list"
where
  "generateChunk G cfg cx cz =
     (let key = chunkKey cx cz;
          cs = chunkSize cfg;
          ground = \<lparr>mesh_name = ''chunk_'' @ key, mesh_position = Vector3 0 0 0,
                    vertices = G cs cs 50, material = None, physicsImpostor = None\<rparr>;
          e0 = [GroundCreated (''chunk_'' @ key) cs cs 50];
          ground = ground\<lparr>mesh_position := Vector3 (of_int cx * cs) 0 (of_int cz * cs)\<rparr>;
          (ground, e1) = applyHeightMap cfg ground cx cz;
          b = getBiome (of_int cx * cs) (of_int cz * cs);
          (ground, e2) = applyBiomeMaterials ground b;
          ground = ground\<lparr>physicsImpostor := Some (0, 0.9)\<rparr>;
          e3 = [ImpostorCreated (mesh_name ground)]
      in (\<lparr>mesh = ground, biome = b,
           position = Vector3 (of_int cx * cs) 0 (of_int cz * cs)\<rparr>,
          e0 @ e1 @ e2 @ e3))"

subsection \<open>Loading and unloading\<close>

definition loadChunk :: "ground_builder \<Rightarrow> world \<Rightarrow> int \<Rightarrow> int \<Rightarrow> world \<times> effect list" where
  "loadChunk G w cx cz =
     (let key = chunkKey cx cz
      in if set_has (loadedChunks w) key then (w, [])
         else let (c, e) = generateChunk G (config w) cx cz
              in (w\<lparr>chunks := (chunks w)(key \<mapsto> c),
                    loadedChunks := set_add (loadedChunks w) key\<rparr>,
                  e @ [LogLoaded key]))"

text \<open>
  The Chebyshev distance of the chunk a key names from the player's chunk. When a piece
  of the key is not a number the JavaScript distance is \<open>NaN\<close>, here \<open>None\<close>, and the
  comparison with the threshold is false.
\<close>

definition key_distance :: "string \<Rightarrow> int \<Rightarrow> int \<Rightarrow> int option" where
  "key_distance key pcx pcz =
     (case map Number (split_comma key) of
        Some kx # Some kz # _ \<Rightarrow> Some (max \<bar>kx - pcx\<bar> \<bar>kz - pcz\<bar>)
      | _ \<Rightarrow> None)"

definition too_far :: "WorldConfig \<Rightarrow> int \<Rightarrow> int \<Rightarrow> string \<Rightarrow> bool" where
  "too_far cfg pcx pcz key =
     (case key_distance key pcx pcz of
        None \<Rightarrow> False
      | Some distance \<Rightarrow> distance > renderDistance cfg + 1)"

definition unload_one :: "world \<times> effect list \<Rightarrow> string \<Rightarrow> world \<times> effect list" where
  "unload_one acc key =
     (let (w, e) = acc;
          d = (case chunks w key of
                 None \<Rightarrow> []
               | Some c \<Rightarrow> [MeshDisposed (mesh_name (mesh c))])
      in (w\<lparr>chunks := (chunks w)(key := None),
            loadedChunks := set_delete (loadedChunks w) key\<rparr>,
          e @ d @ [LogUnloaded key]))"

definition unloadDistantChunks :: "world \<Rightarrow> int \<Rightarrow> int \<Rightarrow> world \<times> effect list" where
  "unloadDistantChunks w playerChunkX playerChunkZ =
     (let chunksToUnload = filter (too_far (config w) playerChunkX playerChunkZ) (loadedChunks w)
      in foldl unload_one (w, []) chunksToUnload)"

text \<open>The body of the inner loop of \<open>updateChunkLoading\<close>, the inner loop over \<open>z\<close> and
  the outer loop over \<open>x\<close>.\<close>

definition load_cell :: "ground_builder \<Rightarrow> int \<Rightarrow> world \<times> effect list \<Rightarrow> int \<Rightarrow> world \<times> effect list" where
  "load_cell G cx acc cz =
     (let (w, e) = acc
      in if \<not> set_has (loadedChunks w) (chunkKey cx cz)
         then (let (w', e') = loadChunk G w cx cz in (w', e @ e'))
         else (w, e))"

definition load_column :: "ground_builder \<Rightarrow> int \<Rightarrow> int \<Rightarrow> world \<times> effect list \<Rightarrow> int \<Rightarrow> world \<times> effect list" where
  "load_column G pcz rd acc cx = foldl (load_cell G cx) acc [pcz - rd..pcz + rd]"

definition load_square :: "ground_builder \<Rightarrow> int \<Rightarrow> int \<Rightarrow> int \<Rightarrow> world \<Rightarrow> world \<times> effect list" where
  "load_square G pcx pcz rd w = foldl (load_column G pcz rd) (w, []) [pcx - rd..pcx + rd]"

text \<open>
  The player's chunk. With \<open>chunkSize = 0\<close> the quotient is \<open>NaN\<close> or infinite in
  JavaScript, which the model has no value for: the result is \<open>None\<close>.
\<close>

definition playerChunk :: "world \<Rightarrow> (int \<times> int) option" where
  "playerChunk w =
     (if chunkSize (config w) = 0 then None
      else Some (\<lfloor>vec_x (playerPosition w) / chunkSize (config w)\<rfloor>,
                 \<lfloor>vec_z (playerPosition w) / chunkSize (config w)\<rfloor>))"

definition updateChunkLoading :: "ground_builder \<Rightarrow> world \<Rightarrow> (world \<times> effect list) option" where
  "updateChunkLoading G w =
     (case playerChunk w of
        None \<Rightarrow> None
      | Some (pcx, pcz) \<Rightarrow>
          let (w1, e1) = load_square G pcx pcz (renderDistance (config w)) w;
              (w2, e2) = unloadDistantChunks w1 pcx pcz
          in Some (w2, e1 @ e2))"

definition updatePlayerPosition :: "world \<Rightarrow> Vector3 \<Rightarrow> world" where
  "updatePlayerPosition w p = w\<lparr>playerPosition := p\<rparr>"

subsection \<open>Observations, invariants and scenarios\<close>

text \<open>
  The two nested loops of \<open>updateChunkLoading\<close> visit the pairs of the square in
  lexicographic order, so they are one scan of the list of these pairs.
\<close>

definition load_list :: "ground_builder \<Rightarrow> world \<times> effect list \<Rightarrow> (int \<times> int) list \<Rightarrow> world \<times> effect list" where
  "load_list G acc ps = foldl (\<lambda>acc (cx, cz). load_cell G cx acc cz) acc ps"

text \<open>The key of a pair of chunk indices.\<close>

definition cell_key :: "int \<times> int \<Rightarrow> string" where
  "cell_key p = chunkKey (fst p) (snd p)"

text \<open>The set \<open>loadedChunks\<close> holds exactly the keys of the map \<open>chunks\<close>.\<close>

definition agree :: "world \<Rightarrow> bool" where
  "agree w = (set (loadedChunks w) = dom (chunks w))"

text \<open>Every loaded key is the key of a pair of chunk indices.\<close>

definition canonical_keys :: "world \<Rightarrow> bool" where
  "canonical_keys w = (\<forall>k \<in> set (loadedChunks w). \<exists>cx cz. k = chunkKey cx cz)"

text \<open>The chunk stored under the key of a pair is the chunk \<open>generateChunk\<close> builds for
  that pair.\<close>

definition generated :: "ground_builder \<Rightarrow> world \<Rightarrow> bool" where
  "generated G w =
     (\<forall>cx cz c. chunks w (chunkKey cx cz) = Some c \<longrightarrow> c = fst (generateChunk G (config w) cx cz))"

text \<open>The invariant of the states of the class.\<close>

definition wf_world :: "ground_builder \<Rightarrow> world \<Rightarrow> bool" where
  "wf_world G w = (agree w \<and> distinct (loadedChunks w) \<and> canonical_keys w \<and> generated G w)"

text \<open>
  The states of the class: the constructor's state, and the states that
  \<open>updatePlayerPosition\<close> and the per-frame \<open>updateChunkLoading\<close> lead to.
\<close>

inductive reachable :: "ground_builder \<Rightarrow> world \<Rightarrow> bool" for G :: ground_builder where
  init: "reachable G (initial_world cfg envs)"
| move: "reachable G w \<Longrightarrow> reachable G (updatePlayerPosition w p)"
| tick: "reachable G w \<Longrightarrow> updateChunkLoading G w = Some (w', e) \<Longrightarrow> reachable G w'"

text \<open>The Chebyshev distance of the chunk \<open>(cx, cz)\<close> from the player's chunk
  \<open>(pcx, pcz)\<close>.\<close>

definition cell_distance :: "int \<Rightarrow> int \<Rightarrow> int \<Rightarrow> int \<Rightarrow> int" where
  "cell_distance pcx pcz cx cz = max \<bar>cx - pcx\<bar> \<bar>cz - pcz\<bar>"

text \<open>The pairs the two loops of \<open>updateChunkLoading\<close> visit, in the order of the
  visit.\<close>

definition square :: "int \<Rightarrow> int \<Rightarrow> int \<Rightarrow> (int \<times> int) list" where
  "square pcx pcz rd = List.product [pcx - rd..pcx + rd] [pcz - rd..pcz + rd]"

text \<open>A chunk is resident when the map \<open>chunks\<close> has an entry under its key.\<close>

definition resident :: "world \<Rightarrow> int \<Rightarrow> int \<Rightarrow> bool" where
  "resident w cx cz = (chunks w (chunkKey cx cz) \<noteq> None)"

definition resident_at :: "int \<Rightarrow> int \<Rightarrow> world \<Rightarrow> bool" where
  "resident_at cx cz w = resident w cx cz"

text \<open>The names of the ground meshes a sequence of effects creates, the names of the
  meshes it disposes of, and the subdivision counts of the grounds it creates.\<close>

fun created :: "effect list \<Rightarrow> string list" where
  "created [] = []"
| "created (GroundCreated n wd h s # es) = n # created es"
| "created (_ # es) = created es"

fun disposed :: "effect list \<Rightarrow> string list" where
  "disposed [] = []"
| "disposed (MeshDisposed n # es) = n # disposed es"
| "disposed (_ # es) = disposed es"

fun ground_subdivisions :: "effect list \<Rightarrow> nat list" where
  "ground_subdivisions [] = []"
| "ground_subdivisions (GroundCreated n wd h s # es) = s # ground_subdivisions es"
| "ground_subdivisions (_ # es) = ground_subdivisions es"

text \<open>
  The render loop of the game calls \<open>updatePlayerPosition\<close> with the character's position
  and then renders the scene, which runs \<open>updateChunkLoading\<close>; \<open>frames\<close> runs one such
  frame per position of the list.
\<close>

definition tick :: "ground_builder \<Rightarrow> world \<Rightarrow> world option" where
  "tick G w = map_option fst (updateChunkLoading G w)"

fun frames :: "ground_builder \<Rightarrow> world \<Rightarrow> Vector3 list \<Rightarrow> world option" where
  "frames G w [] = Some w"
| "frames G w (p # ps) =
     (case tick G (updatePlayerPosition w p) of None \<Rightarrow> None | Some w' \<Rightarrow> frames G w' ps)"

text \<open>A ground builder for the examples: the four corners of the ground.\<close>

definition corner_ground :: ground_builder where
  "corner_ground width height subdivisions =
     [(- width / 2, 0, height / 2), (width / 2, 0, height / 2),
      (- width / 2, 0, - height / 2), (width / 2, 0, - height / 2)]"

text \<open>The configuration of the scenarios of the specification, and the configuration
  the game constructs the class with.\<close>

definition scenario_config :: WorldConfig where
  "scenario_config =
     \<lparr>chunkSize = 100, renderDistance = 1, maxChunks = 25,
      enableDynamicLoading = True, enableLOD = True\<rparr>"

definition game_config :: WorldConfig where
  "game_config =
     \<lparr>chunkSize = 100, renderDistance = 3, maxChunks = 25,
      enableDynamicLoading = True, enableLOD = True\<rparr>"

text \<open>The straight-line distance of a position from the world origin in the \<open>x\<close>/\<open>z\<close>
  plane, and the classification of a distance as the specification states it.\<close>

definition origin_distance :: "Vector3 \<Rightarrow> real" where
  "origin_distance v = sqrt (vec_x v * vec_x v + vec_z v * vec_z v)"

definition biome_by_distance :: "real \<Rightarrow> string" where
  "biome_by_distance d =
     (if d < 100 then ''village''
      else if 100 \<le> d \<and> d < 300 then ''forest''
      else if 300 \<le> d \<and> d < 500 then ''mountains''
      else ''desert'')"

text \<open>The sum of three octaves as the specification states it: amplitudes 20, 10 and 5,
  frequency multipliers 10, 20 and 40.\<close>

definition octaves :: "real \<Rightarrow> real \<Rightarrow> real" where
  "octaves nx nz =
     sin (nx * 10) * cos (nz * 10) * 20
     + sin (nx * 20) * cos (nz * 20) * 10
     + sin (nx * 40) * cos (nz * 40) * 5"

text \<open>The height as the specification states it: the octaves at the coordinates divided
  by the period 100 and reduced modulo 1, that is, at their fractional parts.\<close>

definition height_by_period :: "real \<Rightarrow> real \<Rightarrow> real" where
  "height_by_period wx wz = octaves (frac (wx / 100)) (frac (wz / 100))"

text \<open>A configuration with other values in the three fields that the class never reads,
  and a result of \<open>updateChunkLoading\<close> with its configuration replaced.\<close>

definition untouched_config :: "WorldConfig \<Rightarrow> int \<Rightarrow> bool \<Rightarrow> bool \<Rightarrow> WorldConfig" where
  "untouched_config cfg m d l = cfg\<lparr>maxChunks := m, enableDynamicLoading := d, enableLOD := l\<rparr>"

definition with_config :: "WorldConfig \<Rightarrow> world \<times> effect list \<Rightarrow> world \<times> effect list" where
  "with_config cfg r = ((fst r)\<lparr>config := cfg\<rparr>, snd r)"

section \<open>Lemmas\<close>

subsection \<open>Keys are read back as they were written\<close>

lemma digit_char_is_digit: "d < 10 \<Longrightarrow> is_digit (digit_char d)"
  by (simp add: is_digit_def digit_char_def)

lemma digit_val_digit_char: "d < 10 \<Longrightarrow> digit_val (digit_char d) = d"
  by (simp add: digit_val_def digit_char_def)

lemma show_nat_digits: "list_all is_digit (show_nat n)"
proof (induction n rule: show_nat.induct)
  case (1 n)
  show ?case
  proof (cases "n < 10")
    case True
    then show ?thesis by (subst show_nat.simps) (simp add: digit_char_is_digit)
  next
    case False
    with 1 show ?thesis by (subst show_nat.simps) (simp add: digit_char_is_digit)
  qed
qed

lemma show_nat_nonempty: "show_nat n \<noteq> []"
  by (subst show_nat.simps) simp

lemma show_nat_value: "foldl (\<lambda>a c. a * 10 + digit_val c) 0 (show_nat n) = n"
proof (induction n rule: show_nat.induct)
  case (1 n)
  show ?case
  proof (cases "n < 10")
    case True
    then show ?thesis by (subst show_nat.simps) (simp add: digit_val_digit_char)
  next
    case False
    with 1 show ?thesis by (subst show_nat.simps) (simp add: digit_val_digit_char)
  qed
qed

lemma digits_value_show_nat: "digits_value (show_nat n) = Some n"
  by (simp add: digits_value_def show_nat_digits show_nat_nonempty show_nat_value)

lemma is_digit_not_minus: "is_digit c \<Longrightarrow> c \<noteq> CHR ''-''"
  by (auto simp: is_digit_def)

lemma is_digit_not_comma: "is_digit c \<Longrightarrow> c \<noteq> CHR '',''"
  by (auto simp: is_digit_def)

lemma show_nat_hd_not_minus: "show_nat n = c # cs \<Longrightarrow> c \<noteq> CHR ''-''"
  using show_nat_digits [of n] by (auto dest: is_digit_not_minus)

lemma Number_show_int: "Number (show_int i) = Some i"
proof (cases "i < 0")
  case True
  then show ?thesis by (simp add: Number_def show_int_def digits_value_show_nat)
next
  case False
  obtain c cs where e: "show_nat (nat i) = c # cs"
    using show_nat_nonempty [of "nat i"] by (cases "show_nat (nat i)") auto
  have "c \<noteq> CHR ''-''" using e by (rule show_nat_hd_not_minus)
  moreover have "digits_value (c # cs) = Some (nat i)"
    using digits_value_show_nat [of "nat i"] e by simp
  ultimately show ?thesis using False e by (simp add: Number_def show_int_def)
qed

lemma comma_notin_show_int: "CHR '','' \<notin> set (show_int i)"
  using show_nat_digits [of "nat i"] show_nat_digits [of "nat (- i)"]
  by (auto simp: show_int_def list_all_iff dest: is_digit_not_comma)

lemma split_comma_no_comma: "CHR '','' \<notin> set s \<Longrightarrow> split_comma s = [s]"
  by (induction s) auto

lemma split_comma_append:
  "CHR '','' \<notin> set a \<Longrightarrow> split_comma (a @ CHR '','' # b) = a # split_comma b"
  by (induction a) auto

lemma split_chunkKey: "map Number (split_comma (chunkKey cx cz)) = [Some cx, Some cz]"
  by (simp add: chunkKey_def split_comma_append split_comma_no_comma
      comma_notin_show_int Number_show_int)

lemma key_distance_chunkKey:
  "key_distance (chunkKey cx cz) pcx pcz = Some (max \<bar>cx - pcx\<bar> \<bar>cz - pcz\<bar>)"
  by (simp add: key_distance_def split_chunkKey)

lemma chunkKey_inject: "chunkKey cx cz = chunkKey cx' cz' \<longleftrightarrow> cx = cx' \<and> cz = cz'"
proof
  assume "chunkKey cx cz = chunkKey cx' cz'"
  then have "map Number (split_comma (chunkKey cx cz)) = map Number (split_comma (chunkKey cx' cz'))"
    by simp
  then show "cx = cx' \<and> cz = cz'" by (simp add: split_chunkKey)
qed simp

subsection \<open>The loading loops\<close>

lemma load_list_Nil: "load_list G acc [] = acc"
  by (simp add: load_list_def)

lemma load_list_Cons: "load_list G acc ((cx, cz) # ps) = load_list G (load_cell G cx acc cz) ps"
  by (simp add: load_list_def)

lemma load_list_append: "load_list G acc (ps @ qs) = load_list G (load_list G acc ps) qs"
  by (simp add: load_list_def)

lemma load_column_list: "load_column G pcz rd acc cx = load_list G acc (map (Pair cx) [pcz - rd..pcz + rd])"
  by (simp add: load_column_def load_list_def foldl_map)

lemma load_columns_list:
  "foldl (load_column G pcz rd) acc xs = load_list G acc (List.product xs [pcz - rd..pcz + rd])"
  by (induction xs arbitrary: acc) (simp_all add: load_list_Nil load_list_append load_column_list)

lemma load_square_list:
  "load_square G pcx pcz rd w =
     load_list G (w, []) (List.product [pcx - rd..pcx + rd] [pcz - rd..pcz + rd])"
  by (simp add: load_square_def load_columns_list)

lemma load_cell_eq:
  "load_cell G cx (w, e) cz =
     (if chunkKey cx cz \<in> set (loadedChunks w) then (w, e)
      else (w\<lparr>chunks := (chunks w)(chunkKey cx cz \<mapsto> fst (generateChunk G (config w) cx cz)),
              loadedChunks := loadedChunks w @ [chunkKey cx cz]\<rparr>,
            e @ snd (generateChunk G (config w) cx cz) @ [LogLoaded (chunkKey cx cz)]))"
  by (simp add: load_cell_def loadChunk_def set_has_def set_add_def Let_def split_def)

lemma loadChunk_eq:
  "loadChunk G w cx cz =
     (if chunkKey cx cz \<in> set (loadedChunks w) then (w, [])
      else (w\<lparr>chunks := (chunks w)(chunkKey cx cz \<mapsto> fst (generateChunk G (config w) cx cz)),
              loadedChunks := loadedChunks w @ [chunkKey cx cz]\<rparr>,
            snd (generateChunk G (config w) cx cz) @ [LogLoaded (chunkKey cx cz)]))"
  by (simp add: loadChunk_def set_has_def set_add_def Let_def split_def)

lemma cell_key_pair: "cell_key (cx, cz) = chunkKey cx cz"
  by (simp add: cell_key_def)

lemma load_list_step:
  "load_list G (w, e) ((cx, cz) # ps) =
     (if chunkKey cx cz \<in> set (loadedChunks w) then load_list G (w, e) ps
      else load_list G
        (w\<lparr>chunks := (chunks w)(chunkKey cx cz \<mapsto> fst (generateChunk G (config w) cx cz)),
           loadedChunks := loadedChunks w @ [chunkKey cx cz]\<rparr>,
         e @ snd (generateChunk G (config w) cx cz) @ [LogLoaded (chunkKey cx cz)]) ps)"
  by (simp add: load_list_Cons load_cell_eq)

lemma load_list_config: "config (fst (load_list G (w, e) ps)) = config w"
  by (induction ps arbitrary: w e) (auto simp: load_list_Nil load_list_step)

lemma load_list_playerPosition: "playerPosition (fst (load_list G (w, e) ps)) = playerPosition w"
  by (induction ps arbitrary: w e) (auto simp: load_list_Nil load_list_step)

lemma load_list_environments: "environments (fst (load_list G (w, e) ps)) = environments w"
  by (induction ps arbitrary: w e) (auto simp: load_list_Nil load_list_step)

lemma load_list_loaded:
  "distinct (map cell_key ps) \<Longrightarrow>
   loadedChunks (fst (load_list G (w, e) ps)) =
     loadedChunks w @ filter (\<lambda>k. k \<notin> set (loadedChunks w)) (map cell_key ps)"
proof (induction ps arbitrary: w e)
  case Nil
  then show ?case by (simp add: load_list_Nil)
next
  case (Cons p ps)
  obtain cx cz where p: "p = (cx, cz)" by (cases p)
  from Cons.prems have d: "distinct (map cell_key ps)" and n: "chunkKey cx cz \<notin> set (map cell_key ps)"
    by (simp_all add: p cell_key_pair)
  show ?case
  proof (cases "chunkKey cx cz \<in> set (loadedChunks w)")
    case True
    then show ?thesis
      using Cons.IH [OF d, of w e] by (simp add: p load_list_step cell_key_pair)
  next
    case False
    have "filter (\<lambda>k. k \<noteq> chunkKey cx cz \<and> k \<notin> set (loadedChunks w)) (map cell_key ps)
        = filter (\<lambda>k. k \<notin> set (loadedChunks w)) (map cell_key ps)"
      using n by (intro filter_cong refl) (auto simp: image_iff)
    then show ?thesis
      using False Cons.IH [OF d] by (simp add: p load_list_step cell_key_pair)
  qed
qed

lemma load_list_loaded_set:
  "set (loadedChunks (fst (load_list G (w, e) ps))) = set (loadedChunks w) \<union> cell_key ` set ps"
proof (induction ps arbitrary: w e)
  case Nil
  then show ?case by (simp add: load_list_Nil)
next
  case (Cons p ps)
  obtain cx cz where p: "p = (cx, cz)" by (cases p)
  show ?case
  proof (cases "chunkKey cx cz \<in> set (loadedChunks w)")
    case True
    then show ?thesis
      unfolding p by (simp add: load_list_step cell_key_pair Cons.IH insert_absorb)
  next
    case False
    then show ?thesis
      unfolding p by (simp add: load_list_step cell_key_pair Cons.IH)
  qed
qed

lemma load_list_idle:
  "cell_key ` set ps \<subseteq> set (loadedChunks w) \<Longrightarrow> load_list G (w, e) ps = (w, e)"
proof (induction ps arbitrary: w e)
  case Nil
  then show ?case by (simp add: load_list_Nil)
next
  case (Cons p ps)
  obtain cx cz where p: "p = (cx, cz)" by (cases p)
  from Cons.prems have "chunkKey cx cz \<in> set (loadedChunks w)" "cell_key ` set ps \<subseteq> set (loadedChunks w)"
    by (simp_all add: p cell_key_pair)
  then show ?case
    unfolding p by (simp add: load_list_step Cons.IH)
qed

subsection \<open>Invariants of loading and unloading\<close>

lemma agree_load_list: "agree w \<Longrightarrow> agree (fst (load_list G (w, e) ps))"
proof (induction ps arbitrary: w e)
  case Nil
  then show ?case by (simp add: load_list_Nil)
next
  case (Cons p ps)
  obtain cx cz where p: "p = (cx, cz)" by (cases p)
  show ?case
  proof (cases "chunkKey cx cz \<in> set (loadedChunks w)")
    case True
    then show ?thesis unfolding p using Cons by (simp add: load_list_step)
  next
    case False
    have "agree (w\<lparr>chunks := (chunks w)(chunkKey cx cz \<mapsto> fst (generateChunk G (config w) cx cz)),
           loadedChunks := loadedChunks w @ [chunkKey cx cz]\<rparr>)"
      using Cons.prems by (simp add: agree_def)
    then show ?thesis unfolding p using False by (simp add: load_list_step Cons.IH)
  qed
qed

lemma distinct_load_list: "distinct (loadedChunks w) \<Longrightarrow> distinct (loadedChunks (fst (load_list G (w, e) ps)))"
proof (induction ps arbitrary: w e)
  case Nil
  then show ?case by (simp add: load_list_Nil)
next
  case (Cons p ps)
  obtain cx cz where p: "p = (cx, cz)" by (cases p)
  show ?case
  proof (cases "chunkKey cx cz \<in> set (loadedChunks w)")
    case True
    then show ?thesis unfolding p using Cons by (simp add: load_list_step)
  next
    case False
    then show ?thesis unfolding p using Cons.prems by (simp add: load_list_step Cons.IH)
  qed
qed

lemma canonical_load_list: "canonical_keys w \<Longrightarrow> canonical_keys (fst (load_list G (w, e) ps))"
  unfolding canonical_keys_def load_list_loaded_set
  by (auto simp: cell_key_def)

lemma generated_load_list: "generated G w \<Longrightarrow> generated G (fst (load_list G (w, e) ps))"
proof (induction ps arbitrary: w e)
  case Nil
  then show ?case by (simp add: load_list_Nil)
next
  case (Cons p ps)
  obtain cx cz where p: "p = (cx, cz)" by (cases p)
  show ?case
  proof (cases "chunkKey cx cz \<in> set (loadedChunks w)")
    case True
    then show ?thesis unfolding p using Cons by (simp add: load_list_step)
  next
    case False
    have "generated G (w\<lparr>chunks := (chunks w)(chunkKey cx cz \<mapsto> fst (generateChunk G (config w) cx cz)),
           loadedChunks := loadedChunks w @ [chunkKey cx cz]\<rparr>)"
      using Cons.prems by (simp add: generated_def chunkKey_inject)
    then show ?thesis unfolding p using False by (simp add: load_list_step Cons.IH)
  qed
qed

lemma wf_load_list: "wf_world G w \<Longrightarrow> wf_world G (fst (load_list G (w, e) ps))"
  by (simp add: wf_world_def agree_load_list distinct_load_list canonical_load_list
      generated_load_list)

lemma unload_one_eq:
  "unload_one (w, e) key =
     (w\<lparr>chunks := (chunks w)(key := None), loadedChunks := removeAll key (loadedChunks w)\<rparr>,
      e @ (case chunks w key of None \<Rightarrow> [] | Some c \<Rightarrow> [MeshDisposed (mesh_name (mesh c))])
        @ [LogUnloaded key])"
  by (simp add: unload_one_def set_delete_def)

lemma unload_fold_config: "config (fst (foldl unload_one (w, e) ks)) = config w"
  by (induction ks arbitrary: w e) (simp_all add: unload_one_eq)

lemma unload_fold_playerPosition: "playerPosition (fst (foldl unload_one (w, e) ks)) = playerPosition w"
  by (induction ks arbitrary: w e) (simp_all add: unload_one_eq)

lemma unload_fold_environments: "environments (fst (foldl unload_one (w, e) ks)) = environments w"
  by (induction ks arbitrary: w e) (simp_all add: unload_one_eq)

lemma unload_fold_loaded:
  "loadedChunks (fst (foldl unload_one (w, e) ks)) = filter (\<lambda>k. k \<notin> set ks) (loadedChunks w)"
proof (induction ks arbitrary: w e)
  case Nil
  then show ?case by simp
next
  case (Cons k ks)
  have "filter (\<lambda>j. j \<notin> set ks) (removeAll k xs) = filter (\<lambda>j. j \<notin> set (k # ks)) xs" for xs
    by (induction xs) auto
  then show ?case by (simp add: unload_one_eq Cons.IH del: set_simps)
qed

lemma unload_fold_chunks:
  "chunks (fst (foldl unload_one (w, e) ks)) = (\<lambda>k. if k \<in> set ks then None else chunks w k)"
  by (induction ks arbitrary: w e) (auto simp: unload_one_eq fun_eq_iff)

lemma unload_fold_disposed:
  "MeshDisposed n \<in> set (snd (foldl unload_one (w, e) ks)) \<longleftrightarrow>
     MeshDisposed n \<in> set e \<or> (\<exists>k \<in> set ks. \<exists>c. chunks w k = Some c \<and> n = mesh_name (mesh c))"
proof (induction ks arbitrary: w e)
  case Nil
  then show ?case by simp
next
  case (Cons k ks)
  let ?w = "w\<lparr>chunks := (chunks w)(k := None), loadedChunks := removeAll k (loadedChunks w)\<rparr>"
  let ?d = "case chunks w k of None \<Rightarrow> [] | Some c \<Rightarrow> [MeshDisposed (mesh_name (mesh c))]"
  have a: "(\<exists>j \<in> set ks. \<exists>c. chunks ?w j = Some c \<and> n = mesh_name (mesh c))
       \<longleftrightarrow> (\<exists>j \<in> set ks. j \<noteq> k \<and> (\<exists>c. chunks w j = Some c \<and> n = mesh_name (mesh c)))"
    by auto
  have b: "MeshDisposed n \<in> set ?d \<longleftrightarrow> (\<exists>c. chunks w k = Some c \<and> n = mesh_name (mesh c))"
    by (cases "chunks w k") auto
  have "MeshDisposed n \<in> set (snd (foldl unload_one (w, e) (k # ks))) \<longleftrightarrow>
      MeshDisposed n \<in> set (e @ ?d @ [LogUnloaded k])
      \<or> (\<exists>j \<in> set ks. \<exists>c. chunks ?w j = Some c \<and> n = mesh_name (mesh c))"
    by (simp only: foldl_Cons unload_one_eq Cons.IH)
  also have "\<dots> \<longleftrightarrow> MeshDisposed n \<in> set e
      \<or> (\<exists>c. chunks w k = Some c \<and> n = mesh_name (mesh c))
      \<or> (\<exists>j \<in> set ks. j \<noteq> k \<and> (\<exists>c. chunks w j = Some c \<and> n = mesh_name (mesh c)))"
    unfolding a using b by auto
  also have "\<dots> \<longleftrightarrow> MeshDisposed n \<in> set e
      \<or> (\<exists>j \<in> set (k # ks). \<exists>c. chunks w j = Some c \<and> n = mesh_name (mesh c))"
    by auto
  finally show ?case .
qed

lemma unload_eq:
  "unloadDistantChunks w pcx pcz =
     foldl unload_one (w, []) (filter (too_far (config w) pcx pcz) (loadedChunks w))"
  by (simp add: unloadDistantChunks_def)

lemma unload_idle:
  "\<forall>k \<in> set (loadedChunks w). \<not> too_far (config w) pcx pcz k \<Longrightarrow>
   unloadDistantChunks w pcx pcz = (w, [])"
  by (simp add: unload_eq filter_False)

lemma unload_loaded:
  "loadedChunks (fst (unloadDistantChunks w pcx pcz)) =
     filter (\<lambda>k. \<not> too_far (config w) pcx pcz k) (loadedChunks w)"
  by (simp add: unload_eq unload_fold_loaded cong: filter_cong)

lemma unload_chunks:
  "chunks (fst (unloadDistantChunks w pcx pcz)) =
     (\<lambda>k. if k \<in> set (loadedChunks w) \<and> too_far (config w) pcx pcz k then None else chunks w k)"
  by (simp add: unload_eq unload_fold_chunks)

lemma unload_frame:
  "config (fst (unloadDistantChunks w pcx pcz)) = config w"
  "playerPosition (fst (unloadDistantChunks w pcx pcz)) = playerPosition w"
  "environments (fst (unloadDistantChunks w pcx pcz)) = environments w"
  by (simp_all add: unload_eq unload_fold_config unload_fold_playerPosition unload_fold_environments)

lemma agree_unload: "agree w \<Longrightarrow> agree (fst (unloadDistantChunks w pcx pcz))"
  unfolding agree_def by (auto simp: unload_loaded unload_chunks dom_def split: if_splits)

lemma distinct_unload: "distinct (loadedChunks w) \<Longrightarrow> distinct (loadedChunks (fst (unloadDistantChunks w pcx pcz)))"
  by (simp add: unload_loaded)

lemma canonical_unload: "canonical_keys w \<Longrightarrow> canonical_keys (fst (unloadDistantChunks w pcx pcz))"
  unfolding canonical_keys_def by (simp add: unload_loaded)

lemma generated_unload: "generated G w \<Longrightarrow> generated G (fst (unloadDistantChunks w pcx pcz))"
  unfolding generated_def by (simp add: unload_chunks unload_frame)

lemma wf_unload: "wf_world G w \<Longrightarrow> wf_world G (fst (unloadDistantChunks w pcx pcz))"
  by (simp add: wf_world_def agree_unload distinct_unload canonical_unload generated_unload)

subsection \<open>One call of \<open>updateChunkLoading\<close>\<close>

lemma set_square: "set (square pcx pcz rd) = {(cx, cz). cell_distance pcx pcz cx cz \<le> rd}"
  by (auto simp: square_def cell_distance_def)

lemma inj_cell_key: "inj cell_key"
  by (auto simp: inj_on_def cell_key_def chunkKey_inject prod_eq_iff)

lemma distinct_square_keys: "distinct (map cell_key (square pcx pcz rd))"
  by (simp add: distinct_map square_def distinct_product inj_cell_key [THEN inj_on_subset])

lemma square_key_iff:
  "chunkKey cx cz \<in> cell_key ` set (square pcx pcz rd) \<longleftrightarrow> cell_distance pcx pcz cx cz \<le> rd"
  by (auto simp: set_square cell_key_def chunkKey_inject image_iff)

lemma too_far_chunkKey:
  "too_far cfg pcx pcz (chunkKey cx cz) \<longleftrightarrow> cell_distance pcx pcz cx cz > renderDistance cfg + 1"
  by (simp add: too_far_def key_distance_chunkKey cell_distance_def)

lemma square_not_too_far:
  "p \<in> set (square pcx pcz (renderDistance cfg)) \<Longrightarrow> \<not> too_far cfg pcx pcz (cell_key p)"
  by (auto simp: set_square cell_key_def too_far_chunkKey)

lemma updateChunkLoading_eq:
  "playerChunk w = Some (pcx, pcz) \<Longrightarrow>
   updateChunkLoading G w =
     Some (fst (unloadDistantChunks (fst (load_list G (w, []) (square pcx pcz (renderDistance (config w))))) pcx pcz),
           snd (load_list G (w, []) (square pcx pcz (renderDistance (config w))))
           @ snd (unloadDistantChunks (fst (load_list G (w, []) (square pcx pcz (renderDistance (config w))))) pcx pcz))"
  by (simp add: updateChunkLoading_def load_square_list square_def split_def Let_def)

lemma playerChunk_Some:
  "chunkSize (config w) \<noteq> 0 \<Longrightarrow>
   playerChunk w = Some (\<lfloor>vec_x (playerPosition w) / chunkSize (config w)\<rfloor>,
                         \<lfloor>vec_z (playerPosition w) / chunkSize (config w)\<rfloor>)"
  by (simp add: playerChunk_def)

lemma updateChunkLoading_defined:
  "chunkSize (config w) \<noteq> 0 \<Longrightarrow> \<exists>w' e. updateChunkLoading G w = Some (w', e)"
  by (simp add: updateChunkLoading_eq [OF playerChunk_Some])

lemma updateChunkLoading_playerChunk:
  "updateChunkLoading G w = Some (w', e) \<Longrightarrow> \<exists>pcx pcz. playerChunk w = Some (pcx, pcz)"
  by (cases "playerChunk w") (auto simp: updateChunkLoading_def)

lemma tick_frame:
  assumes "updateChunkLoading G w = Some (w', e)"
  shows "config w' = config w" "playerPosition w' = playerPosition w"
    "environments w' = environments w" "playerChunk w' = playerChunk w"
proof -
  obtain pcx pcz where p: "playerChunk w = Some (pcx, pcz)"
    using updateChunkLoading_playerChunk [OF assms] by blast
  from assms show c: "config w' = config w" and q: "playerPosition w' = playerPosition w"
    and "environments w' = environments w"
    unfolding updateChunkLoading_eq [OF p]
    by (auto simp: unload_frame load_list_config load_list_playerPosition load_list_environments)
  show "playerChunk w' = playerChunk w" by (simp add: playerChunk_def c q)
qed

lemma tick_loaded:
  assumes "updateChunkLoading G w = Some (w', e)" "playerChunk w = Some (pcx, pcz)"
  shows "loadedChunks w' =
     filter (\<lambda>k. \<not> too_far (config w) pcx pcz k) (loadedChunks w)
     @ filter (\<lambda>k. k \<notin> set (loadedChunks w)) (map cell_key (square pcx pcz (renderDistance (config w))))"
proof -
  let ?sq = "square pcx pcz (renderDistance (config w))"
  have "filter (\<lambda>k. \<not> too_far (config w) pcx pcz k) (filter (\<lambda>k. k \<notin> set (loadedChunks w)) (map cell_key ?sq))
      = filter (\<lambda>k. k \<notin> set (loadedChunks w)) (map cell_key ?sq)"
    by (rule filter_True) (auto dest: square_not_too_far)
  with assms(1) show ?thesis
    unfolding updateChunkLoading_eq [OF assms(2)]
    by (auto simp: unload_loaded load_list_config load_list_loaded [OF distinct_square_keys])
qed

lemma tick_loaded_key:
  assumes "updateChunkLoading G w = Some (w', e)" "playerChunk w = Some (pcx, pcz)"
  shows "chunkKey cx cz \<in> set (loadedChunks w') \<longleftrightarrow>
     cell_distance pcx pcz cx cz \<le> renderDistance (config w)
     \<or> (chunkKey cx cz \<in> set (loadedChunks w) \<and> cell_distance pcx pcz cx cz \<le> renderDistance (config w) + 1)"
  unfolding tick_loaded [OF assms]
  using square_key_iff [of cx cz pcx pcz "renderDistance (config w)"]
  by (auto simp: too_far_chunkKey)

lemma wf_tick:
  assumes "wf_world G w" "updateChunkLoading G w = Some (w', e)"
  shows "wf_world G w'"
proof -
  obtain pcx pcz where p: "playerChunk w = Some (pcx, pcz)"
    using updateChunkLoading_playerChunk [OF assms(2)] by blast
  from assms(2) show ?thesis
    unfolding updateChunkLoading_eq [OF p]
    using wf_unload [OF wf_load_list [OF assms(1)]] by auto
qed

lemma wf_initial: "wf_world G (initial_world cfg envs)"
  by (simp add: wf_world_def agree_def canonical_keys_def generated_def initial_world_def)

lemma wf_move: "wf_world G w \<Longrightarrow> wf_world G (updatePlayerPosition w p)"
  by (simp add: wf_world_def agree_def canonical_keys_def generated_def updatePlayerPosition_def)

lemma reachable_wf: "reachable G w \<Longrightarrow> wf_world G w"
  by (induction rule: reachable.induct) (auto intro: wf_initial wf_move wf_tick)

lemma tick_idle:
  assumes "updateChunkLoading G w = Some (w', e)"
  shows "updateChunkLoading G w' = Some (w', [])"
proof -
  obtain pcx pcz where p: "playerChunk w = Some (pcx, pcz)"
    using updateChunkLoading_playerChunk [OF assms] by blast
  have p': "playerChunk w' = Some (pcx, pcz)" and c: "config w' = config w"
    using tick_frame [OF assms] p by simp_all
  have "cell_key ` set (square pcx pcz (renderDistance (config w'))) \<subseteq> set (loadedChunks w')"
    unfolding tick_loaded [OF assms p] c by (auto dest: square_not_too_far)
  then have l: "load_list G (w', []) (square pcx pcz (renderDistance (config w'))) = (w', [])"
    by (rule load_list_idle)
  have "\<forall>k \<in> set (loadedChunks w'). \<not> too_far (config w') pcx pcz k"
    unfolding tick_loaded [OF assms p] c by (auto dest: square_not_too_far)
  then have u: "unloadDistantChunks w' pcx pcz = (w', [])"
    by (rule unload_idle)
  show ?thesis
    by (simp add: updateChunkLoading_eq [OF p'] l u)
qed

subsection \<open>Effects of loading and unloading\<close>

lemma created_append: "created (a @ b) = created a @ created b"
  by (induction a rule: created.induct) simp_all

lemma disposed_append: "disposed (a @ b) = disposed a @ disposed b"
  by (induction a rule: disposed.induct) simp_all

lemma ground_subdivisions_append:
  "ground_subdivisions (a @ b) = ground_subdivisions a @ ground_subdivisions b"
  by (induction a rule: ground_subdivisions.induct) simp_all

lemma disposed_iff: "n \<in> set (disposed es) \<longleftrightarrow> MeshDisposed n \<in> set es"
  by (induction es rule: disposed.induct) auto

lemma heightmap_effects:
  "snd (applyHeightMap_loop cs cx cz vs) = replicate (length vs) NoiseTextureCreated"
  by (induction vs) (auto simp: getHeight_def Let_def split_def)

lemma heightmap_vertices:
  "fst (applyHeightMap_loop cs cx cz vs) =
     map (\<lambda>(v0, v1, v2). (v0, fst (getHeight (v0 + of_int cx * cs) (v2 + of_int cz * cs)), v2)) vs"
  by (induction vs) (auto simp: Let_def split_def)

lemma generateChunk_mesh_name:
  "mesh_name (mesh (fst (generateChunk G cfg cx cz))) = ''chunk_'' @ chunkKey cx cz"
  by (simp add: generateChunk_def applyHeightMap_def applyBiomeMaterials_def Let_def split_def)

lemma generateChunk_biome:
  "biome (fst (generateChunk G cfg cx cz)) =
     getBiome (of_int cx * chunkSize cfg) (of_int cz * chunkSize cfg)"
  by (simp add: generateChunk_def applyHeightMap_def applyBiomeMaterials_def Let_def split_def)

lemma generateChunk_position:
  "position (fst (generateChunk G cfg cx cz)) =
     Vector3 (of_int cx * chunkSize cfg) 0 (of_int cz * chunkSize cfg)"
  by (simp add: generateChunk_def applyHeightMap_def applyBiomeMaterials_def Let_def split_def)

lemma generateChunk_vertices:
  "vertices (mesh (fst (generateChunk G cfg cx cz))) =
     fst (applyHeightMap_loop (chunkSize cfg) cx cz (G (chunkSize cfg) (chunkSize cfg) 50))"
  by (simp add: generateChunk_def applyHeightMap_def applyBiomeMaterials_def Let_def split_def)

lemma generateChunk_effects:
  "snd (generateChunk G cfg cx cz) =
     GroundCreated (''chunk_'' @ chunkKey cx cz) (chunkSize cfg) (chunkSize cfg) 50
     # replicate (length (G (chunkSize cfg) (chunkSize cfg) 50)) NoiseTextureCreated
     @ [MaterialCreated (''biome_'' @ getBiome (of_int cx * chunkSize cfg) (of_int cz * chunkSize cfg) @ ''_mat''),
        ImpostorCreated (''chunk_'' @ chunkKey cx cz)]"
  by (simp add: generateChunk_def applyHeightMap_def applyBiomeMaterials_def Let_def split_def
      heightmap_effects)

lemma created_replicate: "created (replicate n NoiseTextureCreated) = []"
  by (induction n) simp_all

lemma disposed_replicate: "disposed (replicate n NoiseTextureCreated) = []"
  by (induction n) simp_all

lemma ground_subdivisions_replicate: "ground_subdivisions (replicate n NoiseTextureCreated) = []"
  by (induction n) simp_all

lemma generateChunk_created:
  "created (snd (generateChunk G cfg cx cz)) = [''chunk_'' @ chunkKey cx cz]"
  by (simp add: generateChunk_effects created_append created_replicate)

lemma generateChunk_disposed: "disposed (snd (generateChunk G cfg cx cz)) = []"
  by (simp add: generateChunk_effects disposed_append disposed_replicate)

lemma generateChunk_subdivisions: "ground_subdivisions (snd (generateChunk G cfg cx cz)) = [50]"
  by (simp add: generateChunk_effects ground_subdivisions_append ground_subdivisions_replicate)

lemma load_list_created:
  "distinct (map cell_key ps) \<Longrightarrow>
   created (snd (load_list G (w, e) ps)) =
     created e @ map (\<lambda>k. ''chunk_'' @ k) (filter (\<lambda>k. k \<notin> set (loadedChunks w)) (map cell_key ps))"
proof (induction ps arbitrary: w e)
  case Nil
  then show ?case by (simp add: load_list_Nil)
next
  case (Cons p ps)
  obtain cx cz where p: "p = (cx, cz)" by (cases p)
  from Cons.prems have d: "distinct (map cell_key ps)" and n: "chunkKey cx cz \<notin> set (map cell_key ps)"
    by (simp_all add: p cell_key_pair)
  show ?case
  proof (cases "chunkKey cx cz \<in> set (loadedChunks w)")
    case True
    then show ?thesis
      using Cons.IH [OF d, of w e] by (simp add: p load_list_step cell_key_pair)
  next
    case False
    have "filter (\<lambda>k. k \<noteq> chunkKey cx cz \<and> k \<notin> set (loadedChunks w)) (map cell_key ps)
        = filter (\<lambda>k. k \<notin> set (loadedChunks w)) (map cell_key ps)"
      using n by (intro filter_cong refl) (auto simp: image_iff)
    then show ?thesis
      using False Cons.IH [OF d]
      by (simp add: p load_list_step cell_key_pair created_append generateChunk_created)
  qed
qed

lemma load_list_disposed: "disposed (snd (load_list G (w, e) ps)) = disposed e"
proof (induction ps arbitrary: w e)
  case Nil
  then show ?case by (simp add: load_list_Nil)
next
  case (Cons p ps)
  obtain cx cz where p: "p = (cx, cz)" by (cases p)
  show ?case
    unfolding p
    by (simp add: load_list_step Cons.IH disposed_append generateChunk_disposed)
qed

lemma load_list_subdivisions:
  "set (ground_subdivisions (snd (load_list G (w, e) ps))) \<subseteq> set (ground_subdivisions e) \<union> {50}"
proof (induction ps arbitrary: w e)
  case Nil
  then show ?case by (auto simp: load_list_Nil)
next
  case (Cons p ps)
  obtain cx cz where p: "p = (cx, cz)" by (cases p)
  show ?case
  proof (cases "chunkKey cx cz \<in> set (loadedChunks w)")
    case True
    then show ?thesis unfolding p using Cons.IH [of w e] by (simp add: load_list_step)
  next
    case False
    then show ?thesis
      unfolding p
      using Cons.IH [of "w\<lparr>chunks := (chunks w)(chunkKey cx cz \<mapsto> fst (generateChunk G (config w) cx cz)),
           loadedChunks := loadedChunks w @ [chunkKey cx cz]\<rparr>"
           "e @ snd (generateChunk G (config w) cx cz) @ [LogLoaded (chunkKey cx cz)]"]
      by (simp add: load_list_step ground_subdivisions_append generateChunk_subdivisions)
  qed
qed

lemma unload_fold_subdivisions:
  "ground_subdivisions (snd (foldl unload_one (w, e) ks)) = ground_subdivisions e"
proof (induction ks arbitrary: w e)
  case Nil
  then show ?case by simp
next
  case (Cons k ks)
  show ?case
    by (cases "chunks w k") (simp_all add: unload_one_eq Cons.IH ground_subdivisions_append)
qed

lemma unload_fold_created:
  "created (snd (foldl unload_one (w, e) ks)) = created e"
proof (induction ks arbitrary: w e)
  case Nil
  then show ?case by simp
next
  case (Cons k ks)
  show ?case
    by (cases "chunks w k") (simp_all add: unload_one_eq Cons.IH created_append)
qed

subsection \<open>Residency and the scenario of the specification\<close>

lemma resident_loaded: "agree w \<Longrightarrow> resident w cx cz \<longleftrightarrow> chunkKey cx cz \<in> set (loadedChunks w)"
  by (auto simp: agree_def resident_def)

lemma resident_after_tick:
  assumes "agree w" "updateChunkLoading G w = Some (w', e)" "playerChunk w = Some (pcx, pcz)"
  shows "resident w' cx cz \<longleftrightarrow>
     cell_distance pcx pcz cx cz \<le> renderDistance (config w)
     \<or> (resident w cx cz \<and> cell_distance pcx pcz cx cz \<le> renderDistance (config w) + 1)"
proof -
  obtain qx qz where q: "playerChunk w = Some (qx, qz)"
    using updateChunkLoading_playerChunk [OF assms(2)] by blast
  have "agree w'"
    using assms(1,2) unfolding updateChunkLoading_eq [OF q]
    by (auto intro: agree_unload agree_load_list)
  then show ?thesis
    using tick_loaded_key [OF assms(2,3)] by (simp add: resident_loaded assms(1))
qed

lemma scenario_chunkSize: "chunkSize scenario_config = 100"
  by (simp add: scenario_config_def)

lemma scenario_renderDistance: "renderDistance scenario_config = 1"
  by (simp add: scenario_config_def)

lemma scenario_playerChunk_0:
  "config w = scenario_config \<Longrightarrow> playerPosition w = Vector3 0 0 0 \<Longrightarrow> playerChunk w = Some (0, 0)"
  by (simp add: playerChunk_def scenario_chunkSize)

lemma scenario_playerChunk_1:
  "config w = scenario_config \<Longrightarrow> playerPosition w = Vector3 100 0 0 \<Longrightarrow> playerChunk w = Some (1, 0)"
  by (simp add: playerChunk_def scenario_chunkSize)

lemma scenario_run:
  "\<exists>w1 e1 w2 e2.
     updateChunkLoading corner_ground (initial_world scenario_config Map.empty) = Some (w1, e1)
     \<and> updateChunkLoading corner_ground (updatePlayerPosition w1 (Vector3 100 0 0)) = Some (w2, e2)
     \<and> reachable corner_ground w1 \<and> reachable corner_ground w2
     \<and> config w1 = scenario_config \<and> config w2 = scenario_config
     \<and> playerChunk (initial_world scenario_config Map.empty) = Some (0, 0)
     \<and> playerChunk (updatePlayerPosition w1 (Vector3 100 0 0)) = Some (1, 0)
     \<and> playerChunk w2 = Some (1, 0)
     \<and> frames corner_ground (initial_world scenario_config Map.empty) [Vector3 0 0 0, Vector3 100 0 0] = Some w2"
proof -
  let ?w0 = "initial_world scenario_config Map.empty"
  have c0: "config ?w0 = scenario_config" and p0: "playerPosition ?w0 = Vector3 0 0 0"
    by (simp_all add: initial_world_def)
  have m0: "updatePlayerPosition ?w0 (Vector3 0 0 0) = ?w0"
    by (simp add: initial_world_def updatePlayerPosition_def)
  have "chunkSize (config ?w0) \<noteq> 0" by (simp add: c0 scenario_chunkSize)
  then obtain w1 e1 where t1: "updateChunkLoading corner_ground ?w0 = Some (w1, e1)"
    using updateChunkLoading_defined by blast
  have r1: "reachable corner_ground w1"
    using reachable.tick [OF reachable.init t1] .
  have c1: "config w1 = scenario_config" using tick_frame(1) [OF t1] c0 by simp
  let ?m = "updatePlayerPosition w1 (Vector3 100 0 0)"
  have cm: "config ?m = scenario_config" and pm: "playerPosition ?m = Vector3 100 0 0"
    by (simp_all add: updatePlayerPosition_def c1)
  have "chunkSize (config ?m) \<noteq> 0" by (simp add: cm scenario_chunkSize)
  then obtain w2 e2 where t2: "updateChunkLoading corner_ground ?m = Some (w2, e2)"
    using updateChunkLoading_defined by blast
  have r2: "reachable corner_ground w2"
    using reachable.tick [OF reachable.move [OF r1] t2] .
  have c2: "config w2 = scenario_config" using tick_frame(1) [OF t2] cm by simp
  have q2: "playerChunk w2 = Some (1, 0)"
    using tick_frame(4) [OF t2] scenario_playerChunk_1 [OF cm pm] by simp
  have f: "frames corner_ground ?w0 [Vector3 0 0 0, Vector3 100 0 0] = Some w2"
    by (simp add: m0 tick_def t1 t2)
  show ?thesis
    using t1 t2 r1 r2 c1 c2 scenario_playerChunk_0 [OF c0 p0] scenario_playerChunk_1 [OF cm pm] q2 f
    by blast
qed

subsection \<open>What a call destroys and what it keeps\<close>

lemma load_list_chunks_old:
  "k \<in> set (loadedChunks w) \<Longrightarrow> chunks (fst (load_list G (w, e) ps)) k = chunks w k"
proof (induction ps arbitrary: w e)
  case Nil
  then show ?case by (simp add: load_list_Nil)
next
  case (Cons p ps)
  obtain cx cz where p: "p = (cx, cz)" by (cases p)
  show ?case
  proof (cases "chunkKey cx cz \<in> set (loadedChunks w)")
    case True
    then show ?thesis unfolding p using Cons by (simp add: load_list_step)
  next
    case False
    with Cons.prems have "k \<noteq> chunkKey cx cz" by auto
    then show ?thesis
      unfolding p using False Cons.prems by (simp add: load_list_step Cons.IH)
  qed
qed

lemma wf_chunk_name:
  assumes "wf_world G w" "k \<in> set (loadedChunks w)"
  shows "\<exists>c. chunks w k = Some c \<and> mesh_name (mesh c) = ''chunk_'' @ k"
proof -
  from assms obtain cx cz where k: "k = chunkKey cx cz"
    by (auto simp: wf_world_def canonical_keys_def)
  from assms obtain c where c: "chunks w k = Some c"
    by (auto simp: wf_world_def agree_def)
  with assms(1) have "c = fst (generateChunk G (config w) cx cz)"
    by (simp add: wf_world_def generated_def k)
  then show ?thesis using c by (simp add: generateChunk_mesh_name k)
qed

lemma unload_disposed:
  assumes "wf_world G w"
  shows "''chunk_'' @ key \<in> set (disposed (snd (unloadDistantChunks w pcx pcz))) \<longleftrightarrow>
     key \<in> set (loadedChunks w) \<and> too_far (config w) pcx pcz key"
proof -
  let ?ks = "filter (too_far (config w) pcx pcz) (loadedChunks w)"
  have "''chunk_'' @ key \<in> set (disposed (snd (unloadDistantChunks w pcx pcz))) \<longleftrightarrow>
      (\<exists>k \<in> set ?ks. \<exists>c. chunks w k = Some c \<and> ''chunk_'' @ key = mesh_name (mesh c))"
    by (simp add: disposed_iff unload_eq unload_fold_disposed)
  also have "\<dots> \<longleftrightarrow> key \<in> set ?ks"
  proof
    assume "\<exists>k \<in> set ?ks. \<exists>c. chunks w k = Some c \<and> ''chunk_'' @ key = mesh_name (mesh c)"
    then obtain k c where k: "k \<in> set ?ks" "chunks w k = Some c" "''chunk_'' @ key = mesh_name (mesh c)"
      by blast
    from k(1) have "k \<in> set (loadedChunks w)" by simp
    from wf_chunk_name [OF assms this] k(2,3) have "key = k" by auto
    with k(1) show "key \<in> set ?ks" by simp
  next
    assume a: "key \<in> set ?ks"
    then have "key \<in> set (loadedChunks w)" by simp
    from wf_chunk_name [OF assms this] a
    show "\<exists>k \<in> set ?ks. \<exists>c. chunks w k = Some c \<and> ''chunk_'' @ key = mesh_name (mesh c)"
      by metis
  qed
  finally show ?thesis by simp
qed

lemma tick_disposed:
  assumes "wf_world G w" "updateChunkLoading G w = Some (w', e)" "playerChunk w = Some (pcx, pcz)"
  shows "''chunk_'' @ chunkKey cx cz \<in> set (disposed e) \<longleftrightarrow>
     chunkKey cx cz \<in> set (loadedChunks w)
     \<and> cell_distance pcx pcz cx cz > renderDistance (config w) + 1"
proof -
  let ?sq = "square pcx pcz (renderDistance (config w))"
  let ?w1 = "fst (load_list G (w, []) ?sq)"
  have e: "e = snd (load_list G (w, []) ?sq) @ snd (unloadDistantChunks ?w1 pcx pcz)"
    using assms(2) unfolding updateChunkLoading_eq [OF assms(3)] by simp
  have "''chunk_'' @ chunkKey cx cz \<in> set (disposed e) \<longleftrightarrow>
      chunkKey cx cz \<in> set (loadedChunks ?w1) \<and> too_far (config ?w1) pcx pcz (chunkKey cx cz)"
    unfolding e
    using unload_disposed [OF wf_load_list [OF assms(1), of "[]" ?sq], of "chunkKey cx cz" pcx pcz]
    by (simp add: disposed_append load_list_disposed)
  also have "\<dots> \<longleftrightarrow> chunkKey cx cz \<in> set (loadedChunks w)
     \<and> cell_distance pcx pcz cx cz > renderDistance (config w) + 1"
    using square_key_iff [of cx cz pcx pcz "renderDistance (config w)"]
    by (auto simp: load_list_loaded_set load_list_config too_far_chunkKey)
  finally show ?thesis .
qed

lemma tick_chunks_kept:
  assumes "updateChunkLoading G w = Some (w', e)" "playerChunk w = Some (pcx, pcz)"
    and "chunkKey cx cz \<in> set (loadedChunks w)"
    and "cell_distance pcx pcz cx cz \<le> renderDistance (config w) + 1"
  shows "chunks w' (chunkKey cx cz) = chunks w (chunkKey cx cz)"
proof -
  let ?sq = "square pcx pcz (renderDistance (config w))"
  let ?w1 = "fst (load_list G (w, []) ?sq)"
  have w': "w' = fst (unloadDistantChunks ?w1 pcx pcz)"
    using assms(1) unfolding updateChunkLoading_eq [OF assms(2)] by simp
  have "\<not> too_far (config ?w1) pcx pcz (chunkKey cx cz)"
    using assms(4) by (simp add: load_list_config too_far_chunkKey)
  then show ?thesis
    unfolding w' by (simp add: unload_chunks load_list_chunks_old [OF assms(3)])
qed

lemma agree_loadChunk: "agree w \<Longrightarrow> agree (fst (loadChunk G w cx cz))"
  by (auto simp: loadChunk_eq agree_def)

lemma agree_tick: "agree w \<Longrightarrow> updateChunkLoading G w = Some (w', e) \<Longrightarrow> agree w'"
proof -
  assume a: "agree w" and t: "updateChunkLoading G w = Some (w', e)"
  obtain pcx pcz where p: "playerChunk w = Some (pcx, pcz)"
    using updateChunkLoading_playerChunk [OF t] by blast
  show "agree w'"
    using a t unfolding updateChunkLoading_eq [OF p]
    by (auto intro: agree_unload agree_load_list)
qed

subsection \<open>The first call\<close>

lemma first_tick:
  assumes "chunkSize cfg \<noteq> 0"
  shows "\<exists>w' e. updateChunkLoading G (initial_world cfg envs) = Some (w', e)
     \<and> reachable G w' \<and> config w' = cfg
     \<and> playerChunk (initial_world cfg envs) = Some (0, 0) \<and> playerChunk w' = Some (0, 0)"
proof -
  let ?w0 = "initial_world cfg envs"
  have c0: "config ?w0 = cfg" by (simp add: initial_world_def)
  have q0: "playerChunk ?w0 = Some (0, 0)"
    using assms by (simp add: playerChunk_def initial_world_def)
  from assms obtain w' e where t: "updateChunkLoading G ?w0 = Some (w', e)"
    using updateChunkLoading_defined [of ?w0 G] by (auto simp: c0)
  have "reachable G w'" using reachable.tick [OF reachable.init t] .
  moreover have "config w' = cfg" using tick_frame(1) [OF t] c0 by simp
  moreover have "playerChunk w' = Some (0, 0)" using tick_frame(4) [OF t] q0 by simp
  ultimately show ?thesis using t q0 by blast
qed

lemma tick_effects:
  assumes "updateChunkLoading G w = Some (w', e)" "playerChunk w = Some (pcx, pcz)"
  shows "e = snd (load_list G (w, []) (square pcx pcz (renderDistance (config w))))
     @ snd (unloadDistantChunks (fst (load_list G (w, []) (square pcx pcz (renderDistance (config w))))) pcx pcz)"
  using assms(1) unfolding updateChunkLoading_eq [OF assms(2)] by simp

lemma tick_created:
  assumes "updateChunkLoading G w = Some (w', e)" "playerChunk w = Some (pcx, pcz)"
  shows "created e = map (\<lambda>k. ''chunk_'' @ k)
     (filter (\<lambda>k. k \<notin> set (loadedChunks w)) (map cell_key (square pcx pcz (renderDistance (config w)))))"
  unfolding tick_effects [OF assms]
  by (simp add: created_append unload_eq unload_fold_created
      load_list_created [OF distinct_square_keys] del: map_map)

lemma tick_nothing_far:
  assumes "updateChunkLoading G w = Some (w', e)" "playerChunk w = Some (pcx, pcz)"
    and "\<forall>k \<in> set (loadedChunks w). \<not> too_far (config w) pcx pcz k"
  shows "disposed e = []"
proof -
  let ?w1 = "fst (load_list G (w, []) (square pcx pcz (renderDistance (config w))))"
  have "\<forall>k \<in> set (loadedChunks ?w1). \<not> too_far (config ?w1) pcx pcz k"
    using assms(3) by (auto simp: load_list_loaded_set load_list_config dest: square_not_too_far)
  then have "unloadDistantChunks ?w1 pcx pcz = (?w1, [])" by (rule unload_idle)
  then show ?thesis
    unfolding tick_effects [OF assms(1,2)] by (simp add: disposed_append load_list_disposed)
qed

lemma square_keys_0_0_1:
  "map cell_key (square 0 0 1) =
     [''-1,-1'', ''-1,0'', ''-1,1'', ''0,-1'', ''0,0'', ''0,1'', ''1,-1'', ''1,0'', ''1,1'']"
  by code_simp

subsection \<open>Configuration, biome\<close>

lemma generateChunk_chunkSize:
  "chunkSize c1 = chunkSize c2 \<Longrightarrow> generateChunk G c1 cx cz = generateChunk G c2 cx cz"
  by (simp add: generateChunk_def applyHeightMap_def)

lemma load_list_other_config:
  "chunkSize c = chunkSize (config w) \<Longrightarrow>
   load_list G (w\<lparr>config := c\<rparr>, e) ps = with_config c (load_list G (w, e) ps)"
proof (induction ps arbitrary: w e)
  case Nil
  then show ?case by (simp add: load_list_Nil with_config_def)
next
  case (Cons p ps)
  obtain cx cz where p: "p = (cx, cz)" by (cases p)
  let ?w = "w\<lparr>chunks := (chunks w)(chunkKey cx cz \<mapsto> fst (generateChunk G (config w) cx cz)),
             loadedChunks := loadedChunks w @ [chunkKey cx cz]\<rparr>"
  have g: "generateChunk G c cx cz = generateChunk G (config w) cx cz"
    using Cons.prems by (rule generateChunk_chunkSize)
  show ?case
  proof (cases "chunkKey cx cz \<in> set (loadedChunks w)")
    case True
    then show ?thesis unfolding p using Cons by (simp add: load_list_step)
  next
    case False
    have "chunkSize c = chunkSize (config ?w)" using Cons.prems by simp
    note ih = Cons.IH [OF this]
    have eq: "(w\<lparr>config := c\<rparr>)\<lparr>chunks := (chunks w)(chunkKey cx cz \<mapsto> fst (generateChunk G (config w) cx cz)),
             loadedChunks := loadedChunks w @ [chunkKey cx cz]\<rparr> = ?w\<lparr>config := c\<rparr>"
      by simp
    have "load_list G (w\<lparr>config := c\<rparr>, e) ((cx, cz) # ps)
        = load_list G (?w\<lparr>config := c\<rparr>,
            e @ snd (generateChunk G (config w) cx cz) @ [LogLoaded (chunkKey cx cz)]) ps"
      using False by (subst load_list_step) (simp add: g eq)
    also have "\<dots> = with_config c (load_list G (?w,
            e @ snd (generateChunk G (config w) cx cz) @ [LogLoaded (chunkKey cx cz)]) ps)"
      by (rule ih)
    also have "\<dots> = with_config c (load_list G (w, e) ((cx, cz) # ps))"
      using False by (simp add: load_list_step)
    finally show ?thesis unfolding p .
  qed
qed

lemma unload_fold_other_config:
  "foldl unload_one (w\<lparr>config := c\<rparr>, e) ks = with_config c (foldl unload_one (w, e) ks)"
proof (induction ks arbitrary: w e)
  case Nil
  then show ?case by (simp add: with_config_def)
next
  case (Cons k ks)
  let ?w = "w\<lparr>chunks := (chunks w)(k := None), loadedChunks := removeAll k (loadedChunks w)\<rparr>"
  let ?e = "e @ (case chunks w k of None \<Rightarrow> [] | Some c \<Rightarrow> [MeshDisposed (mesh_name (mesh c))])
        @ [LogUnloaded k]"
  have eq: "unload_one (w\<lparr>config := c\<rparr>, e) k = (?w\<lparr>config := c\<rparr>, ?e)"
    by (simp add: unload_one_eq)
  have "foldl unload_one (w\<lparr>config := c\<rparr>, e) (k # ks) = foldl unload_one (?w\<lparr>config := c\<rparr>, ?e) ks"
    by (simp only: foldl_Cons eq)
  also have "\<dots> = with_config c (foldl unload_one (?w, ?e) ks)"
    by (rule Cons.IH)
  also have "\<dots> = with_config c (foldl unload_one (w, e) (k # ks))"
    by (simp only: foldl_Cons unload_one_eq)
  finally show ?case .
qed

lemma too_far_renderDistance:
  "renderDistance c1 = renderDistance c2 \<Longrightarrow> too_far c1 pcx pcz = too_far c2 pcx pcz"
  by (simp add: too_far_def fun_eq_iff split: option.splits)

lemma unload_other_config:
  "renderDistance c = renderDistance (config w) \<Longrightarrow>
   unloadDistantChunks (w\<lparr>config := c\<rparr>) pcx pcz = with_config c (unloadDistantChunks w pcx pcz)"
  by (simp add: unload_eq unload_fold_other_config too_far_renderDistance [of c "config w"])

lemma tick_other_config:
  assumes "chunkSize c = chunkSize (config w)" "renderDistance c = renderDistance (config w)"
  shows "updateChunkLoading G (w\<lparr>config := c\<rparr>) = map_option (with_config c) (updateChunkLoading G w)"
proof (cases "playerChunk w")
  case None
  then have "playerChunk (w\<lparr>config := c\<rparr>) = None"
    using assms(1) by (simp add: playerChunk_def split: if_splits)
  with None show ?thesis by (simp add: updateChunkLoading_def)
next
  case (Some q)
  obtain pcx pcz where q: "q = (pcx, pcz)" by (cases q)
  have p: "playerChunk w = Some (pcx, pcz)" using Some q by simp
  then have p': "playerChunk (w\<lparr>config := c\<rparr>) = Some (pcx, pcz)"
    using assms(1) by (simp add: playerChunk_def split: if_splits)
  let ?sq = "square pcx pcz (renderDistance (config w))"
  have "renderDistance c = renderDistance (config (fst (load_list G (w, []) ?sq)))"
    using assms(2) by (simp add: load_list_config)
  from unload_other_config [OF this, of pcx pcz]
  show ?thesis
    unfolding updateChunkLoading_eq [OF p] updateChunkLoading_eq [OF p']
    by (simp add: assms(2) load_list_other_config [OF assms(1)] with_config_def)
qed

lemma tick_subdivisions:
  assumes "updateChunkLoading G w = Some (w', e)"
  shows "set (ground_subdivisions e) \<subseteq> {50}"
proof -
  obtain pcx pcz where p: "playerChunk w = Some (pcx, pcz)"
    using updateChunkLoading_playerChunk [OF assms] by blast
  show ?thesis
    unfolding tick_effects [OF assms p]
    using load_list_subdivisions [of G w "[]" "square pcx pcz (renderDistance (config w))"]
    by (simp add: ground_subdivisions_append unload_eq unload_fold_subdivisions)
qed

lemma tick_count:
  assumes "updateChunkLoading G w = Some (w', e)" "0 \<le> renderDistance (config w)"
  shows "(2 * renderDistance (config w) + 1) * (2 * renderDistance (config w) + 1)
     \<le> int (length (loadedChunks w'))"
proof -
  obtain pcx pcz where p: "playerChunk w = Some (pcx, pcz)"
    using updateChunkLoading_playerChunk [OF assms(1)] by blast
  let ?rd = "renderDistance (config w)"
  let ?sq = "square pcx pcz ?rd"
  have "length ?sq = nat (2 * ?rd + 1) * nat (2 * ?rd + 1)"
    by (simp add: square_def)
  moreover have "card (cell_key ` set ?sq) = length ?sq"
    using distinct_square_keys [of pcx pcz ?rd] distinct_card [of "map cell_key ?sq"] by simp
  moreover have "cell_key ` set ?sq \<subseteq> set (loadedChunks w')"
    unfolding tick_loaded [OF assms(1) p] by (auto dest: square_not_too_far)
  then have "card (cell_key ` set ?sq) \<le> card (set (loadedChunks w'))"
    by (intro card_mono) simp_all
  moreover have "card (set (loadedChunks w')) \<le> length (loadedChunks w')"
    by (rule card_length)
  ultimately have "nat (2 * ?rd + 1) * nat (2 * ?rd + 1) \<le> length (loadedChunks w')"
    by simp
  then have "int (nat (2 * ?rd + 1) * nat (2 * ?rd + 1)) \<le> int (length (loadedChunks w'))"
    by (rule iffD2 [OF of_nat_le_iff])
  then show ?thesis using assms(2) by simp
qed

lemma getBiome_by_distance:
  "getBiome wx wz = biome_by_distance (sqrt (wx * wx + wz * wz))"
  by (simp add: getBiome_def biome_by_distance_def Let_def)

lemma generateChunk_mesh_position:
  "mesh_position (mesh (fst (generateChunk G cfg cx cz))) = position (fst (generateChunk G cfg cx cz))"
  by (simp add: generateChunk_def applyHeightMap_def applyBiomeMaterials_def Let_def split_def)

lemma generateChunk_biome_by_distance:
  "biome (fst (generateChunk G cfg cx cz))
     = biome_by_distance (origin_distance (position (fst (generateChunk G cfg cx cz))))"
  by (simp add: generateChunk_biome generateChunk_position origin_distance_def getBiome_by_distance)

subsection \<open>Height\<close>

lemma first_tick_chunk:
  assumes "chunkSize cfg \<noteq> 0" "0 \<le> renderDistance cfg" "cell_distance 0 0 cx cz \<le> renderDistance cfg"
  shows "\<exists>w e c. updateChunkLoading G (initial_world cfg envs) = Some (w, e)
     \<and> reachable G w \<and> config w = cfg \<and> chunks w (chunkKey cx cz) = Some c"
proof -
  let ?w0 = "initial_world cfg envs"
  from first_tick [OF assms(1), of G envs] obtain w e where
    t: "updateChunkLoading G ?w0 = Some (w, e)" and r: "reachable G w" and c: "config w = cfg"
    and q0: "playerChunk ?w0 = Some (0, 0)"
    by blast
  have a0: "agree ?w0" using wf_initial [of G] by (simp add: wf_world_def)
  have "resident w cx cz"
    using resident_after_tick [OF a0 t q0, of cx cz] assms(3) by (simp add: initial_world_def)
  then obtain c' where "chunks w (chunkKey cx cz) = Some c'" by (auto simp: resident_def)
  with t r c show ?thesis by blast
qed

lemma js_rem_one: "js_rem a 1 = sgn a * frac \<bar>a\<bar>"
proof (cases "a < 0")
  case True
  then show ?thesis by (simp add: js_rem_def trunc_def frac_def ceiling_def)
next
  case False
  then show ?thesis by (cases "a = 0") (simp_all add: js_rem_def trunc_def frac_def)
qed

lemma js_rem_hundredth: "js_rem (a / 100) 1 = sgn a * frac (\<bar>a\<bar> / 100)"
  by (simp add: js_rem_one sgn_real_def)

lemma getHeight_octaves:
  "fst (getHeight wx wz) = octaves (js_rem (wx / 100) 1) (js_rem (wz / 100) 1)"
  by (simp add: getHeight_def octaves_def Let_def)

lemma getHeight_effect: "snd (getHeight wx wz) = [NoiseTextureCreated]"
  by (simp add: getHeight_def Let_def)

lemma generateChunk_heights:
  "map (\<lambda>(v0, v1, v2). v1) (vertices (mesh (fst (generateChunk G cfg cx cz)))) =
     map (\<lambda>(v0, v1, v2). fst (getHeight (v0 + of_int cx * chunkSize cfg) (v2 + of_int cz * chunkSize cfg)))
       (G (chunkSize cfg) (chunkSize cfg) 50)"
  by (simp add: generateChunk_vertices heightmap_vertices split_def)

lemma js_rem_frac:
  "js_rem a 1 = (if 0 \<le> a \<or> frac a = 0 then frac a else frac a - 1)"
proof (cases "0 \<le> a")
  case True
  then show ?thesis by (simp add: js_rem_def trunc_def frac_def)
next
  case False
  then have j: "js_rem a 1 = a - of_int \<lceil>a\<rceil>" by (simp add: js_rem_def trunc_def)
  show ?thesis
  proof (cases "frac a = 0")
    case True
    then have "a = of_int \<lfloor>a\<rfloor>" by (simp add: frac_def)
    then have "\<lceil>a\<rceil> = \<lfloor>a\<rfloor>" by (simp add: ceiling_altdef)
    then show ?thesis using True by (simp add: j frac_def)
  next
    case nz: False
    then have "a \<noteq> of_int \<lfloor>a\<rfloor>" by (simp add: frac_def)
    then have "\<lceil>a\<rceil> = \<lfloor>a\<rfloor> + 1" by (simp add: ceiling_altdef)
    then show ?thesis using False nz by (simp add: j frac_def)
  qed
qed

lemma sum_lessThan_numeral:
  "(\<Sum>m<numeral k. f m) = (\<Sum>m<pred_numeral k. f m) + (f (pred_numeral k) :: real)"
  by (simp add: numeral_eq_Suc)

lemma sin_partial_5: "(\<Sum>m<18. sin_coeff m * (5::real) ^ m) < - (9 / 10)"
  by (simp add: sum_lessThan_numeral sin_coeff_def fact_numeral)

lemma cos_partial_5: "2 / 10 < (\<Sum>m<18. cos_coeff m * (5::real) ^ m)"
  by (simp add: sum_lessThan_numeral cos_coeff_def fact_numeral)

lemma remainder_5: "inverse (fact 18) * \<bar>5::real\<bar> ^ 18 < 1 / 1000"
  by (simp add: fact_numeral)

lemma sin_5_neg: "sin (5::real) < 0"
proof -
  define p :: real where "p = (\<Sum>m<18. sin_coeff m * (5::real) ^ m)"
  define r :: real where "r = inverse (fact 18) * \<bar>5::real\<bar> ^ 18"
  have "\<bar>sin 5 - p\<bar> \<le> r" unfolding p_def r_def by (rule Maclaurin_sin_bound)
  moreover have "p < - (9 / 10)" unfolding p_def by (rule sin_partial_5)
  moreover have "r < 1 / 1000" unfolding r_def by (rule remainder_5)
  ultimately show ?thesis by linarith
qed

lemma cos_5_pos: "0 < cos (5::real)"
proof -
  define p :: real where "p = (\<Sum>m<18. cos_coeff m * (5::real) ^ m)"
  define r :: real where "r = inverse (fact 18) * \<bar>5::real\<bar> ^ 18"
  from Maclaurin_cos_expansion [of 5 18] obtain t :: real where
    c: "cos 5 = p + (cos (t + 1 / 2 * real (18::nat) * pi) / fact 18) * 5 ^ 18"
    unfolding p_def by blast
  define u :: real where "u = cos (t + 1 / 2 * real (18::nat) * pi)"
  have u: "\<bar>u\<bar> \<le> 1" unfolding u_def by (rule abs_cos_le_one)
  have "(u / fact 18) * 5 ^ 18 = u * r" unfolding r_def by (simp add: divide_inverse)
  then have c': "cos 5 = p + u * r" using c unfolding u_def by simp
  have r0: "0 \<le> r" unfolding r_def by simp
  have "\<bar>u * r\<bar> = \<bar>u\<bar> * r" using r0 by (simp add: abs_mult)
  also have "\<dots> \<le> 1 * r" using u r0 by (rule mult_right_mono)
  finally have "\<bar>u * r\<bar> \<le> r" by simp
  moreover have "2 / 10 < p" unfolding p_def by (rule cos_partial_5)
  moreover have "r < 1 / 1000" unfolding r_def by (rule remainder_5)
  ultimately show ?thesis using c' by linarith
qed

lemma octaves_half: "octaves (1 / 2) 0 = 20 * sin 5 * (1 + 2 * cos 5 ^ 3)"
proof -
  have s10: "sin (10::real) = 2 * sin 5 * cos 5" using sin_double [of "5::real"] by simp
  have c10: "cos (10::real) = 2 * (cos 5)\<^sup>2 - 1" using cos_double_cos [of "5::real"] by simp
  have s20: "sin (20::real) = 2 * sin 10 * cos 10" using sin_double [of "10::real"] by simp
  have "octaves (1 / 2) 0 = 20 * sin 5 + 10 * sin 10 + 5 * sin 20"
    by (simp add: octaves_def)
  also have "\<dots> = 20 * sin 5 * (1 + 2 * cos 5 ^ 3)"
    unfolding s20 c10 s10 by (simp add: algebra_simps power2_eq_square power3_eq_cube)
  finally show ?thesis .
qed

lemma octaves_half_neg: "octaves (1 / 2) 0 < 0"
proof -
  have "0 < cos (5::real) ^ 3" using cos_5_pos by simp
  then have "0 < 1 + 2 * cos (5::real) ^ 3" by linarith
  then have "sin (5::real) * (1 + 2 * cos 5 ^ 3) < 0"
    using sin_5_neg by (rule mult_neg_pos [rotated])
  then show ?thesis by (simp add: octaves_half)
qed

lemma js_rem_hundredth_frac:
  "js_rem (a / 100) 1 =
     (if 0 \<le> a \<or> frac (a / 100) = 0 then frac (a / 100) else frac (a / 100) - 1)"
  using js_rem_frac [of "a / 100"] by simp

lemma getHeight_nonneg: "fst (getHeight \<bar>wx\<bar> \<bar>wz\<bar>) = height_by_period \<bar>wx\<bar> \<bar>wz\<bar>"
  by (simp add: getHeight_octaves height_by_period_def js_rem_frac)

lemma octaves_minus: "octaves (- nx) nz = - octaves nx nz"
  by (simp add: octaves_def)

lemma minus_50_hundredth: "(- 50 / 100 :: real) = - (1 / 2)"
  by simp

lemma frac_minus_half: "frac (- (1 / 2) :: real) = 1 / 2"
  by (simp add: frac_def)

lemma js_rem_minus_half: "js_rem (- (1 / 2)) 1 = - (1 / 2)"
proof -
  have "frac (- (1 / 2) :: real) \<noteq> 0" by (simp add: frac_minus_half)
  then have "js_rem (- (1 / 2)) 1 = frac (- (1 / 2) :: real) - 1"
    by (simp add: js_rem_frac)
  then show ?thesis by (simp add: frac_minus_half)
qed

lemma js_rem_zero: "js_rem 0 1 = 0"
  by (simp add: js_rem_def trunc_def)

lemma frac_0: "frac (0::real) = 0"
  by (simp add: frac_def)

lemma getHeight_minus_50: "fst (getHeight (- 50) 0) = octaves (- (1 / 2)) 0"
proof -
  have "fst (getHeight (- 50) 0) = octaves (js_rem (- 50 / 100) 1) (js_rem (0 / 100) 1)"
    by (rule getHeight_octaves)
  also have "\<dots> = octaves (- (1 / 2)) 0"
    by (simp only: minus_50_hundredth js_rem_minus_half div_0 js_rem_zero)
  finally show ?thesis .
qed

lemma height_by_period_minus_50: "height_by_period (- 50) 0 = octaves (1 / 2) 0"
proof -
  have "height_by_period (- 50) 0 = octaves (frac (- 50 / 100)) (frac (0 / 100))"
    by (simp only: height_by_period_def)
  also have "\<dots> = octaves (1 / 2) 0"
    by (simp only: minus_50_hundredth frac_minus_half div_0 frac_0)
  finally show ?thesis .
qed

section \<open>The claims of the specification\<close>

text \<open>
  Claim C1, as amended. Let \<open>w'\<close> be the state right after a call of \<open>updateChunkLoading\<close>
  in a reachable state \<open>w\<close>, and \<open>(pcx, pcz)\<close> the player's chunk. A chunk \<open>(cx, cz)\<close> is
  resident in \<open>w'\<close> exactly when its Chebyshev distance from the player's chunk is at most
  the render distance, or it was resident before the call and its distance is at most the
  render distance plus one.
\<close>

theorem residency_after_tick:
  assumes "reachable G w" and "updateChunkLoading G w = Some (w', e)"
    and "playerChunk w' = Some (pcx, pcz)"
  shows "resident w' cx cz \<longleftrightarrow>
     cell_distance pcx pcz cx cz \<le> renderDistance (config w')
     \<or> (resident w cx cz \<and> cell_distance pcx pcz cx cz \<le> renderDistance (config w') + 1)"
proof -
  have a: "agree w" using reachable_wf [OF assms(1)] by (simp add: wf_world_def)
  have p: "playerChunk w = Some (pcx, pcz)" using tick_frame(4) [OF assms(2)] assms(3) by simp
  show ?thesis
    using resident_after_tick [OF a assms(2) p] by (simp add: tick_frame(1) [OF assms(2)])
qed

text \<open>An instance: the player starts at the origin with render distance 1 and moves one
  chunk along \<open>x\<close>. After the second call the chunk \<open>(2, 0)\<close> is resident, \<open>(-2, 0)\<close> is
  not, and \<open>(-1, 0)\<close> is resident exactly when it was before the call.\<close>

theorem residency_after_tick_witness:
  "\<exists>w1 e1 w2 e2.
     updateChunkLoading corner_ground (initial_world scenario_config Map.empty) = Some (w1, e1)
     \<and> reachable corner_ground (updatePlayerPosition w1 (Vector3 100 0 0))
     \<and> updateChunkLoading corner_ground (updatePlayerPosition w1 (Vector3 100 0 0)) = Some (w2, e2)
     \<and> playerChunk w2 = Some (1, 0)
     \<and> resident w2 2 0 \<and> \<not> resident w2 (- 2) 0
     \<and> (resident w2 (- 1) 0 \<longleftrightarrow> resident (updatePlayerPosition w1 (Vector3 100 0 0)) (- 1) 0)"
proof -
  obtain w1 e1 w2 e2 where
    t1: "updateChunkLoading corner_ground (initial_world scenario_config Map.empty) = Some (w1, e1)"
    and t2: "updateChunkLoading corner_ground (updatePlayerPosition w1 (Vector3 100 0 0)) = Some (w2, e2)"
    and r1: "reachable corner_ground w1" and c2: "config w2 = scenario_config"
    and q2: "playerChunk w2 = Some (1, 0)"
    using scenario_run by blast
  have rm: "reachable corner_ground (updatePlayerPosition w1 (Vector3 100 0 0))"
    using reachable.move [OF r1] .
  have rd: "renderDistance (config w2) = 1" by (simp add: c2 scenario_renderDistance)
  note th = residency_after_tick [OF rm t2 q2, unfolded rd]
  have "resident w2 2 0" using th [of 2 0] by (simp add: cell_distance_def)
  moreover have "\<not> resident w2 (- 2) 0" using th [of "- 2" 0] by (simp add: cell_distance_def)
  moreover have "resident w2 (- 1) 0 \<longleftrightarrow> resident (updatePlayerPosition w1 (Vector3 100 0 0)) (- 1) 0"
    using th [of "- 1" 0] by (simp add: cell_distance_def)
  ultimately show ?thesis using t1 t2 rm q2 by blast
qed

text \<open>
  Claim C1 as the specification states it (the resident chunks are exactly those within
  the render distance) fails in that run: after the second frame the player's chunk is
  \<open>(1, 0)\<close> and the render distance is 1, the chunk \<open>(-1, 0)\<close> is at distance 2, and it is
  resident.
\<close>

theorem residency_exact_counterexample:
  "map_option (resident_at (- 1) 0)
     (frames corner_ground (initial_world scenario_config Map.empty) [Vector3 0 0 0, Vector3 100 0 0])
     = Some True
   \<and> map_option playerChunk
     (frames corner_ground (initial_world scenario_config Map.empty) [Vector3 0 0 0, Vector3 100 0 0])
     = Some (Some (1, 0))
   \<and> map_option config
     (frames corner_ground (initial_world scenario_config Map.empty) [Vector3 0 0 0, Vector3 100 0 0])
     = Some scenario_config
   \<and> \<not> cell_distance 1 0 (- 1) 0 \<le> renderDistance scenario_config"
proof -
  let ?w0 = "initial_world scenario_config Map.empty"
  obtain w1 e1 w2 e2 where
    t1: "updateChunkLoading corner_ground ?w0 = Some (w1, e1)"
    and t2: "updateChunkLoading corner_ground (updatePlayerPosition w1 (Vector3 100 0 0)) = Some (w2, e2)"
    and r1: "reachable corner_ground w1"
    and c1: "config w1 = scenario_config" and c2: "config w2 = scenario_config"
    and q0: "playerChunk ?w0 = Some (0, 0)"
    and qm: "playerChunk (updatePlayerPosition w1 (Vector3 100 0 0)) = Some (1, 0)"
    and q2: "playerChunk w2 = Some (1, 0)"
    and f: "frames corner_ground ?w0 [Vector3 0 0 0, Vector3 100 0 0] = Some w2"
    using scenario_run by blast
  have a0: "agree ?w0" using wf_initial [of corner_ground] by (simp add: wf_world_def)
  have a1: "agree w1" using reachable_wf [OF r1] by (simp add: wf_world_def)
  have am: "agree (updatePlayerPosition w1 (Vector3 100 0 0))"
    using a1 by (simp add: agree_def updatePlayerPosition_def)
  have "resident w1 (- 1) 0"
    using resident_after_tick [OF a0 t1 q0, of "- 1" 0]
    by (simp add: cell_distance_def initial_world_def scenario_renderDistance)
  then have "resident (updatePlayerPosition w1 (Vector3 100 0 0)) (- 1) 0"
    by (simp add: resident_def updatePlayerPosition_def)
  then have "resident w2 (- 1) 0"
    using resident_after_tick [OF am t2 qm, of "- 1" 0]
    by (simp add: cell_distance_def updatePlayerPosition_def c1 scenario_renderDistance)
  then show ?thesis
    unfolding f by (simp add: resident_at_def q2 c2 cell_distance_def scenario_renderDistance)
qed

text \<open>
  Claim C2. A chunk that is resident when \<open>updateChunkLoading\<close> is called in a reachable
  state is destroyed by the call (its entry leaves the map \<open>chunks\<close> and the set
  \<open>loadedChunks\<close>, and its mesh is disposed of) exactly when its Chebyshev distance from
  the player's chunk exceeds the render distance plus one. A chunk at distance exactly the
  render distance plus one stays resident, with the same chunk object.
\<close>

theorem unload_iff_beyond_hysteresis:
  assumes "reachable G w" and "updateChunkLoading G w = Some (w', e)"
    and "playerChunk w' = Some (pcx, pcz)" and "resident w cx cz"
  shows "(\<not> resident w' cx cz
            \<longleftrightarrow> cell_distance pcx pcz cx cz > renderDistance (config w') + 1)
     \<and> (chunkKey cx cz \<notin> set (loadedChunks w')
            \<longleftrightarrow> cell_distance pcx pcz cx cz > renderDistance (config w') + 1)
     \<and> (''chunk_'' @ chunkKey cx cz \<in> set (disposed e)
            \<longleftrightarrow> cell_distance pcx pcz cx cz > renderDistance (config w') + 1)
     \<and> (cell_distance pcx pcz cx cz = renderDistance (config w') + 1
          \<longrightarrow> chunks w' (chunkKey cx cz) = chunks w (chunkKey cx cz) \<and> resident w' cx cz)"
proof -
  have wf: "wf_world G w" using reachable_wf [OF assms(1)] .
  then have a: "agree w" by (simp add: wf_world_def)
  have wf': "wf_world G w'" using wf_tick [OF wf assms(2)] .
  then have a': "agree w'" by (simp add: wf_world_def)
  have p: "playerChunk w = Some (pcx, pcz)" using tick_frame(4) [OF assms(2)] assms(3) by simp
  have c: "config w' = config w" using tick_frame(1) [OF assms(2)] .
  have l: "chunkKey cx cz \<in> set (loadedChunks w)" using assms(4) by (simp add: resident_loaded [OF a])
  have r: "resident w' cx cz \<longleftrightarrow> cell_distance pcx pcz cx cz \<le> renderDistance (config w) + 1"
    using resident_after_tick [OF a assms(2) p, of cx cz] assms(4) by auto
  have 1: "\<not> resident w' cx cz \<longleftrightarrow> cell_distance pcx pcz cx cz > renderDistance (config w') + 1"
    using r by (auto simp: c)
  have 2: "chunkKey cx cz \<notin> set (loadedChunks w')
      \<longleftrightarrow> cell_distance pcx pcz cx cz > renderDistance (config w') + 1"
    using 1 by (simp add: resident_loaded [OF a'])
  have 3: "''chunk_'' @ chunkKey cx cz \<in> set (disposed e)
      \<longleftrightarrow> cell_distance pcx pcz cx cz > renderDistance (config w') + 1"
    using tick_disposed [OF wf assms(2) p, of cx cz] l by (simp add: c)
  have 4: "chunks w' (chunkKey cx cz) = chunks w (chunkKey cx cz) \<and> resident w' cx cz"
    if "cell_distance pcx pcz cx cz = renderDistance (config w') + 1"
    using that tick_chunks_kept [OF assms(2) p l] r by (simp add: c)
  show ?thesis using 1 2 3 4 by simp
qed

text \<open>An instance: with render distance 1, the chunk \<open>(-1, 0)\<close> is at distance 2 after the
  player has moved to the chunk \<open>(1, 0)\<close>; it stays resident and its mesh is not disposed
  of.\<close>

theorem unload_iff_beyond_hysteresis_witness:
  "\<exists>w1 e1 w2 e2.
     updateChunkLoading corner_ground (initial_world scenario_config Map.empty) = Some (w1, e1)
     \<and> reachable corner_ground (updatePlayerPosition w1 (Vector3 100 0 0))
     \<and> updateChunkLoading corner_ground (updatePlayerPosition w1 (Vector3 100 0 0)) = Some (w2, e2)
     \<and> playerChunk w2 = Some (1, 0)
     \<and> resident (updatePlayerPosition w1 (Vector3 100 0 0)) (- 1) 0
     \<and> cell_distance 1 0 (- 1) 0 = renderDistance (config w2) + 1
     \<and> resident w2 (- 1) 0
     \<and> ''chunk_'' @ chunkKey (- 1) 0 \<notin> set (disposed e2)"
proof -
  let ?w0 = "initial_world scenario_config Map.empty"
  obtain w1 e1 w2 e2 where
    t1: "updateChunkLoading corner_ground ?w0 = Some (w1, e1)"
    and t2: "updateChunkLoading corner_ground (updatePlayerPosition w1 (Vector3 100 0 0)) = Some (w2, e2)"
    and r1: "reachable corner_ground w1" and c2: "config w2 = scenario_config"
    and q0: "playerChunk ?w0 = Some (0, 0)"
    and q2: "playerChunk w2 = Some (1, 0)"
    using scenario_run by blast
  have rm: "reachable corner_ground (updatePlayerPosition w1 (Vector3 100 0 0))"
    using reachable.move [OF r1] .
  have a0: "agree ?w0" using wf_initial [of corner_ground] by (simp add: wf_world_def)
  have "resident w1 (- 1) 0"
    using resident_after_tick [OF a0 t1 q0, of "- 1" 0]
    by (simp add: cell_distance_def initial_world_def scenario_renderDistance)
  then have res: "resident (updatePlayerPosition w1 (Vector3 100 0 0)) (- 1) 0"
    by (simp add: resident_def updatePlayerPosition_def)
  have d: "cell_distance 1 0 (- 1) 0 = renderDistance (config w2) + 1"
    by (simp add: cell_distance_def c2 scenario_renderDistance)
  from unload_iff_beyond_hysteresis [OF rm t2 q2 res] d
  have "resident w2 (- 1) 0" and "''chunk_'' @ chunkKey (- 1) 0 \<notin> set (disposed e2)"
    by simp_all
  then show ?thesis using t1 t2 rm q2 res d by blast
qed

text \<open>
  Claim C3, as amended. The value \<open>getHeight\<close> returns is a function of the world
  coordinates alone, and every call also creates a noise texture, so the function is not
  free of effects. The value is the sum of the three octaves (amplitudes 20, 10 and 5,
  frequency multipliers 10, 20 and 40) at \<open>nx = (wx / 100) % 1\<close> and
  \<open>nz = (wz / 100) % 1\<close>, where \<open>%\<close> is the remainder of JavaScript, which has the sign of
  the dividend: \<open>nx\<close> is the fractional part of \<open>\<bar>wx\<bar> / 100\<close> with the sign of \<open>wx\<close>. This is
  \<open>(wx / 100) mod 1\<close> when \<open>wx\<close> is not negative or is a multiple of 100, and
  \<open>(wx / 100) mod 1 - 1\<close> otherwise; so at coordinates that are not negative the value is
  the one the specification states. The height of every vertex of a generated chunk is
  the value of \<open>getHeight\<close> at the vertex's world coordinates.
\<close>

theorem getHeight_three_octaves:
  "fst (getHeight wx wz) = octaves (js_rem (wx / 100) 1) (js_rem (wz / 100) 1)
   \<and> snd (getHeight wx wz) = [NoiseTextureCreated]
   \<and> js_rem (wx / 100) 1 = sgn wx * frac (\<bar>wx\<bar> / 100)
   \<and> js_rem (wz / 100) 1 = sgn wz * frac (\<bar>wz\<bar> / 100)
   \<and> js_rem (wx / 100) 1 =
       (if 0 \<le> wx \<or> frac (wx / 100) = 0 then frac (wx / 100) else frac (wx / 100) - 1)
   \<and> js_rem (wz / 100) 1 =
       (if 0 \<le> wz \<or> frac (wz / 100) = 0 then frac (wz / 100) else frac (wz / 100) - 1)
   \<and> fst (getHeight \<bar>wx\<bar> \<bar>wz\<bar>) = height_by_period \<bar>wx\<bar> \<bar>wz\<bar>
   \<and> map (\<lambda>(v0, v1, v2). v1) (vertices (mesh (fst (generateChunk G cfg cx cz)))) =
       map (\<lambda>(v0, v1, v2). fst (getHeight (v0 + of_int cx * chunkSize cfg) (v2 + of_int cz * chunkSize cfg)))
         (G (chunkSize cfg) (chunkSize cfg) 50)"
  by (intro conjI getHeight_octaves getHeight_effect js_rem_hundredth js_rem_hundredth_frac
      getHeight_nonneg generateChunk_heights)

text \<open>An instance, at the world coordinates \<open>(-50, 0)\<close>, where \<open>nx = -1/2\<close>.\<close>

theorem getHeight_three_octaves_witness:
  "fst (getHeight (- 50) 0) = octaves (js_rem (- 50 / 100) 1) (js_rem (0 / 100) 1)
   \<and> snd (getHeight (- 50) 0) = [NoiseTextureCreated]
   \<and> js_rem (- 50 / 100) 1 = sgn (- 50) * frac (\<bar>- 50\<bar> / 100)
   \<and> js_rem (- 50 / 100) 1 = - (1 / 2)
   \<and> fst (getHeight \<bar>- 50\<bar> \<bar>0\<bar>) = height_by_period \<bar>- 50\<bar> \<bar>0\<bar>"
proof -
  note th = getHeight_three_octaves [of "- 50" 0 corner_ground scenario_config 0 0]
  from th have 1: "fst (getHeight (- 50) 0) = octaves (js_rem (- 50 / 100) 1) (js_rem (0 / 100) 1)"
    by (elim conjE)
  from th have 2: "snd (getHeight (- 50) 0) = [NoiseTextureCreated]"
    by (elim conjE)
  from th have 3: "js_rem (- 50 / 100) 1 = sgn (- 50) * frac (\<bar>- 50\<bar> / 100)"
    by (elim conjE)
  have 4: "js_rem (- 50 / 100) 1 = - (1 / 2)"
    by (simp only: minus_50_hundredth js_rem_minus_half)
  from th have 5: "fst (getHeight \<bar>- 50\<bar> \<bar>0\<bar>) = height_by_period \<bar>- 50\<bar> \<bar>0\<bar>"
    by (elim conjE)
  show ?thesis by (intro conjI 1 2 3 4 5)
qed

text \<open>
  Claim C3 as the specification states it (the octaves at \<open>nx = (wx / 100) mod 1\<close>) fails
  at a negative coordinate. At \<open>(-50, 0)\<close> the code has \<open>nx = -1/2\<close> where the stated formula
  has \<open>nx = 1/2\<close>; the value of \<open>getHeight\<close> is positive and the value of the stated formula
  is negative.
\<close>

theorem getHeight_period_counterexample:
  "js_rem (- 50 / 100) 1 = - (1 / 2)
   \<and> frac (- 50 / 100 :: real) = 1 / 2
   \<and> 0 < fst (getHeight (- 50) 0)
   \<and> height_by_period (- 50) 0 < 0
   \<and> fst (getHeight (- 50) 0) \<noteq> height_by_period (- 50) 0"
proof -
  have 1: "js_rem (- 50 / 100) 1 = - (1 / 2)"
    by (simp only: minus_50_hundredth js_rem_minus_half)
  have 2: "frac (- 50 / 100 :: real) = 1 / 2"
    by (simp only: minus_50_hundredth frac_minus_half)
  have 3: "0 < fst (getHeight (- 50) 0)"
    using octaves_half_neg by (simp add: getHeight_minus_50 octaves_minus)
  have 4: "height_by_period (- 50) 0 < 0"
    using octaves_half_neg by (simp only: height_by_period_minus_50)
  from 3 4 have 5: "fst (getHeight (- 50) 0) \<noteq> height_by_period (- 50) 0" by simp
  show ?thesis by (intro conjI 1 2 3 4 5)
qed

text \<open>
  Claim C4. The biome of every chunk of a reachable state is the classification of the
  straight-line distance \<open>d\<close> from the world origin to the chunk's position, which is the
  position of its ground mesh: village if \<open>d < 100\<close>, forest if \<open>100 \<le> d < 300\<close>, mountains
  if \<open>300 \<le> d < 500\<close>, desert otherwise. The position of the chunk with indices
  \<open>(cx, cz)\<close> is \<open>(cx * chunkSize, 0, cz * chunkSize)\<close>.
\<close>

theorem biome_of_resident_chunk:
  assumes "reachable G w" and "chunks w k = Some c"
  shows "biome c = biome_by_distance (origin_distance (position c))
     \<and> mesh_position (mesh c) = position c
     \<and> (\<exists>cx cz. k = chunkKey cx cz
          \<and> position c = Vector3 (of_int cx * chunkSize (config w)) 0 (of_int cz * chunkSize (config w))
          \<and> biome c = getBiome (of_int cx * chunkSize (config w)) (of_int cz * chunkSize (config w)))"
proof -
  have wf: "wf_world G w" using reachable_wf [OF assms(1)] .
  from assms(2) wf have "k \<in> set (loadedChunks w)"
    by (auto simp: wf_world_def agree_def)
  with wf obtain cx cz where k: "k = chunkKey cx cz"
    unfolding wf_world_def canonical_keys_def by blast
  with wf assms(2) have c: "c = fst (generateChunk G (config w) cx cz)"
    by (simp add: wf_world_def generated_def)
  show ?thesis
    unfolding c
    using k generateChunk_biome_by_distance generateChunk_mesh_position
      generateChunk_position generateChunk_biome
    by blast
qed

text \<open>Two instances: with chunk size 99 the chunk \<open>(1, 0)\<close> is at distance 99 and is
  village; with chunk size 101 it is at distance 101 and is forest.\<close>

theorem biome_of_resident_chunk_witness:
  "(\<exists>w e c. updateChunkLoading corner_ground
        (initial_world (scenario_config\<lparr>chunkSize := 99\<rparr>) Map.empty) = Some (w, e)
      \<and> reachable corner_ground w \<and> chunks w (chunkKey 1 0) = Some c
      \<and> origin_distance (position c) = 99 \<and> biome c = ''village'')
   \<and> (\<exists>w e c. updateChunkLoading corner_ground
        (initial_world (scenario_config\<lparr>chunkSize := 101\<rparr>) Map.empty) = Some (w, e)
      \<and> reachable corner_ground w \<and> chunks w (chunkKey 1 0) = Some c
      \<and> origin_distance (position c) = 101 \<and> biome c = ''forest'')"
proof -
  have rd: "renderDistance (scenario_config\<lparr>chunkSize := s\<rparr>) = 1" for s
    by (simp add: scenario_config_def)
  have cs: "chunkSize (scenario_config\<lparr>chunkSize := s\<rparr>) = s" for s
    by simp
  have d: "cell_distance 0 0 1 0 \<le> renderDistance (scenario_config\<lparr>chunkSize := s\<rparr>)" for s
    by (simp add: rd cell_distance_def)
  have main: "\<exists>w e c. updateChunkLoading corner_ground
        (initial_world (scenario_config\<lparr>chunkSize := s\<rparr>) Map.empty) = Some (w, e)
      \<and> reachable corner_ground w \<and> chunks w (chunkKey 1 0) = Some c
      \<and> origin_distance (position c) = s \<and> biome c = biome_by_distance s"
    if s: "0 < s" for s
  proof -
    let ?cfg = "scenario_config\<lparr>chunkSize := s\<rparr>"
    have "chunkSize ?cfg \<noteq> 0" "0 \<le> renderDistance ?cfg" using s by (simp_all add: rd)
    from first_tick_chunk [OF this d, of corner_ground Map.empty]
    obtain w e c where t: "updateChunkLoading corner_ground (initial_world ?cfg Map.empty) = Some (w, e)"
      and r: "reachable corner_ground w" and cf: "config w = ?cfg"
      and c: "chunks w (chunkKey 1 0) = Some c"
      by blast
    from biome_of_resident_chunk [OF r c] obtain cx cz where
      b: "biome c = biome_by_distance (origin_distance (position c))"
      and k: "chunkKey 1 0 = chunkKey cx cz"
      and p: "position c = Vector3 (of_int cx * chunkSize (config w)) 0 (of_int cz * chunkSize (config w))"
      by blast
    from k have "cx = 1" "cz = 0" by (simp_all add: chunkKey_inject)
    with p have "position c = Vector3 s 0 0" by (simp add: cf)
    then have "origin_distance (position c) = s" using s by (simp add: origin_distance_def)
    with b t r c show ?thesis by auto
  qed
  have "biome_by_distance 99 = ''village''" "biome_by_distance 101 = ''forest''"
    by (simp_all add: biome_by_distance_def)
  with main [of 99] main [of 101] show ?thesis by simp
qed

text \<open>
  Claim C5. In the constructor's state (no chunk loaded, the player at the origin) with
  chunk size 100 and render distance 1, the first call of \<open>updateChunkLoading\<close> returns,
  creates exactly the nine chunks with indices in \<open>{-1, 0, 1} \<times> {-1, 0, 1}\<close> and disposes
  of none.
\<close>

theorem initial_load:
  assumes "chunkSize cfg = 100" and "renderDistance cfg = 1"
  shows "\<exists>w' e. updateChunkLoading G (initial_world cfg envs) = Some (w', e)
     \<and> loadedChunks w' =
         [''-1,-1'', ''-1,0'', ''-1,1'', ''0,-1'', ''0,0'', ''0,1'', ''1,-1'', ''1,0'', ''1,1'']
     \<and> dom (chunks w') = set (loadedChunks w')
     \<and> created e = map (\<lambda>k. ''chunk_'' @ k) (loadedChunks w')
     \<and> disposed e = []
     \<and> (\<forall>cx cz. resident w' cx cz \<longleftrightarrow> cx \<in> {- 1, 0, 1} \<and> cz \<in> {- 1, 0, 1})"
proof -
  let ?w0 = "initial_world cfg envs"
  have nz: "chunkSize cfg \<noteq> 0" using assms(1) by simp
  from first_tick [OF nz, of G envs] obtain w' e where
    t: "updateChunkLoading G ?w0 = Some (w', e)" and r: "reachable G w'"
    and q0: "playerChunk ?w0 = Some (0, 0)"
    by blast
  have c0: "config ?w0 = cfg" and l0: "loadedChunks ?w0 = []"
    by (simp_all add: initial_world_def)
  have a0: "agree ?w0" using wf_initial [of G] by (simp add: wf_world_def)
  have l: "loadedChunks w' =
      [''-1,-1'', ''-1,0'', ''-1,1'', ''0,-1'', ''0,0'', ''0,1'', ''1,-1'', ''1,0'', ''1,1'']"
    unfolding tick_loaded [OF t q0] c0 l0 assms(2) by (simp add: square_keys_0_0_1)
  have d: "dom (chunks w') = set (loadedChunks w')"
    using reachable_wf [OF r] by (simp add: wf_world_def agree_def)
  have cr: "created e = map (\<lambda>k. ''chunk_'' @ k) (loadedChunks w')"
    unfolding tick_created [OF t q0] l c0 l0 assms(2) by (simp add: square_keys_0_0_1)
  have di: "disposed e = []"
    by (rule tick_nothing_far [OF t q0]) (simp add: l0)
  have re: "resident w' cx cz \<longleftrightarrow> cx \<in> {- 1, 0, 1} \<and> cz \<in> {- 1, 0, 1}" for cx cz
  proof -
    have "\<not> resident ?w0 cx cz" by (simp add: resident_def initial_world_def)
    then have "resident w' cx cz \<longleftrightarrow> cell_distance 0 0 cx cz \<le> 1"
      using resident_after_tick [OF a0 t q0, of cx cz] by (simp add: c0 assms(2))
    also have "\<dots> \<longleftrightarrow> cx \<in> {- 1, 0, 1} \<and> cz \<in> {- 1, 0, 1}"
      by (auto simp: cell_distance_def)
    finally show ?thesis .
  qed
  show ?thesis using t l d cr di re by blast
qed

text \<open>An instance, with the configuration of the scenario and the example ground.\<close>

theorem initial_load_witness:
  "chunkSize scenario_config = 100 \<and> renderDistance scenario_config = 1
   \<and> (\<exists>w' e. updateChunkLoading corner_ground (initial_world scenario_config Map.empty) = Some (w', e)
        \<and> length (loadedChunks w') = 9 \<and> length (created e) = 9 \<and> disposed e = []
        \<and> resident w' (- 1) 1 \<and> \<not> resident w' 2 0)"
proof -
  from initial_load [OF scenario_chunkSize scenario_renderDistance, of corner_ground Map.empty]
  obtain w' e where
    t: "updateChunkLoading corner_ground (initial_world scenario_config Map.empty) = Some (w', e)"
    and l: "loadedChunks w' =
      [''-1,-1'', ''-1,0'', ''-1,1'', ''0,-1'', ''0,0'', ''0,1'', ''1,-1'', ''1,0'', ''1,1'']"
    and cr: "created e = map (\<lambda>k. ''chunk_'' @ k) (loadedChunks w')"
    and di: "disposed e = []"
    and re: "\<forall>cx cz. resident w' cx cz \<longleftrightarrow> cx \<in> {- 1, 0, 1} \<and> cz \<in> {- 1, 0, 1}"
    by blast
  have "length (loadedChunks w') = 9" by (simp add: l)
  moreover have "length (created e) = 9" by (simp add: cr l)
  moreover have "resident w' (- 1) 1" "\<not> resident w' 2 0" by (simp_all add: re)
  ultimately show ?thesis
    using t di scenario_chunkSize scenario_renderDistance by blast
qed

text \<open>
  Claim C6. When \<open>updateChunkLoading\<close> has returned the state \<open>w'\<close>, a second call with no
  change of the player's position in between returns \<open>w'\<close> again and has no effect: it
  creates nothing and destroys nothing.
\<close>

theorem tick_twice:
  "updateChunkLoading G w = Some (w', e) \<Longrightarrow> updateChunkLoading G w' = Some (w', [])"
  by (rule tick_idle)

text \<open>An instance: the first call in the scenario loads chunks, the second call changes
  nothing.\<close>

theorem tick_twice_witness:
  "\<exists>w' e. updateChunkLoading corner_ground (initial_world scenario_config Map.empty) = Some (w', e)
     \<and> updateChunkLoading corner_ground w' = Some (w', []) \<and> resident w' 1 1"
proof -
  obtain w1 e1 where
    t1: "updateChunkLoading corner_ground (initial_world scenario_config Map.empty) = Some (w1, e1)"
    and q0: "playerChunk (initial_world scenario_config Map.empty) = Some (0, 0)"
    using scenario_run by blast
  have a0: "agree (initial_world scenario_config Map.empty)"
    using wf_initial [of corner_ground] by (simp add: wf_world_def)
  have "resident w1 1 1"
    using resident_after_tick [OF a0 t1 q0, of 1 1]
    by (simp add: cell_distance_def initial_world_def scenario_renderDistance)
  then show ?thesis using t1 tick_twice [OF t1] by blast
qed

text \<open>
  Claim C7. \<open>updateChunkLoading\<close> does not depend on the fields \<open>maxChunks\<close>,
  \<open>enableDynamicLoading\<close> and \<open>enableLOD\<close>: from states that differ in these fields only
  it gives the same effects and states that differ in these fields only. Every ground it
  creates has 50 subdivisions, and with a render distance \<open>rd \<ge> 0\<close> at least
  \<open>(2 * rd + 1)\<^sup>2\<close> chunks are loaded after the call, whatever \<open>maxChunks\<close> is.
\<close>

theorem unused_config_fields:
  "updateChunkLoading G (w\<lparr>config := untouched_config cfg m d l\<rparr>)
     = map_option (with_config (untouched_config cfg m d l)) (updateChunkLoading G (w\<lparr>config := cfg\<rparr>))
   \<and> (updateChunkLoading G w = Some (w', e) \<longrightarrow>
        set (ground_subdivisions e) \<subseteq> {50}
        \<and> (0 \<le> renderDistance (config w) \<longrightarrow>
             (2 * renderDistance (config w) + 1) * (2 * renderDistance (config w) + 1)
               \<le> int (length (loadedChunks w'))))"
proof -
  have "chunkSize (untouched_config cfg m d l) = chunkSize (config (w\<lparr>config := cfg\<rparr>))"
    and "renderDistance (untouched_config cfg m d l) = renderDistance (config (w\<lparr>config := cfg\<rparr>))"
    by (simp_all add: untouched_config_def)
  from tick_other_config [OF this, of G]
  show ?thesis using tick_subdivisions [of G w w' e] tick_count [of G w w' e] by simp
qed

text \<open>An instance: with the game's configuration (render distance 3, \<open>maxChunks = 25\<close>)
  the first call loads at least 49 chunks, and it does the same with \<open>maxChunks = 1\<close> and
  both switches off.\<close>

theorem unused_config_fields_witness:
  "\<exists>w' e. updateChunkLoading corner_ground (initial_world game_config Map.empty) = Some (w', e)
     \<and> updateChunkLoading corner_ground
         ((initial_world game_config Map.empty)\<lparr>config := untouched_config game_config 1 False False\<rparr>)
       = Some (w'\<lparr>config := untouched_config game_config 1 False False\<rparr>, e)
     \<and> maxChunks (config w') = 25
     \<and> 49 \<le> int (length (loadedChunks w'))
     \<and> set (ground_subdivisions e) \<subseteq> {50}"
proof -
  let ?w0 = "initial_world game_config Map.empty"
  have cs: "chunkSize game_config = 100" and rd: "renderDistance game_config = 3"
    and mc: "maxChunks game_config = 25"
    by (simp_all add: game_config_def)
  have c0: "config ?w0 = game_config" by (simp add: initial_world_def)
  have e0: "?w0\<lparr>config := game_config\<rparr> = ?w0" by (simp add: initial_world_def)
  have "chunkSize game_config \<noteq> 0" by (simp add: cs)
  from first_tick [OF this, of corner_ground Map.empty] obtain w' e where
    t: "updateChunkLoading corner_ground ?w0 = Some (w', e)" and c: "config w' = game_config"
    by blast
  note th = unused_config_fields [where G = corner_ground and w = ?w0 and cfg = game_config
      and m = 1 and d = False and l = False and w' = w' and e = e]
  from th have "updateChunkLoading corner_ground (?w0\<lparr>config := untouched_config game_config 1 False False\<rparr>)
      = Some (w'\<lparr>config := untouched_config game_config 1 False False\<rparr>, e)"
    by (simp add: e0 t with_config_def)
  moreover from th t have "set (ground_subdivisions e) \<subseteq> {50}" by blast
  moreover from th t have "49 \<le> int (length (loadedChunks w'))" by (simp add: c0 rd)
  ultimately show ?thesis using t by (auto simp: c mc)
qed

text \<open>
  Claim C8. \<open>updatePlayerPosition\<close> is total; it stores its argument as the player's
  position and changes no other field: the map \<open>chunks\<close>, the set \<open>loadedChunks\<close>, the
  configuration and the environments stay as they are.
\<close>

theorem updatePlayerPosition_frame:
  "playerPosition (updatePlayerPosition w p) = p
   \<and> chunks (updatePlayerPosition w p) = chunks w
   \<and> loadedChunks (updatePlayerPosition w p) = loadedChunks w
   \<and> config (updatePlayerPosition w p) = config w
   \<and> environments (updatePlayerPosition w p) = environments w
   \<and> updatePlayerPosition w p = w\<lparr>playerPosition := p\<rparr>"
  by (simp add: updatePlayerPosition_def)

text \<open>
  Claim C9. In every reachable state the set \<open>loadedChunks\<close> has no key twice, every key of
  the map \<open>chunks\<close> is the key of one pair of chunk indices, which \<open>split\<close> and \<open>Number\<close>
  read back from it, the chunk stored under it is the chunk generated for that pair, and
  two keys of the map that are read back as the same pair are the same key.
\<close>

theorem unique_cell_coordinates:
  assumes "reachable G w"
  shows "distinct (loadedChunks w)
     \<and> (\<forall>k \<in> dom (chunks w). \<exists>cx cz. k = chunkKey cx cz
           \<and> map Number (split_comma k) = [Some cx, Some cz]
           \<and> chunks w k = Some (fst (generateChunk G (config w) cx cz)))
     \<and> (\<forall>k1 \<in> dom (chunks w). \<forall>k2 \<in> dom (chunks w).
           map Number (split_comma k1) = map Number (split_comma k2) \<longrightarrow> k1 = k2)"
proof -
  have wf: "wf_world G w" using reachable_wf [OF assms] .
  have d: "distinct (loadedChunks w)" using wf by (simp add: wf_world_def)
  have k: "\<exists>cx cz. k = chunkKey cx cz \<and> map Number (split_comma k) = [Some cx, Some cz]
      \<and> chunks w k = Some (fst (generateChunk G (config w) cx cz))"
    if "k \<in> dom (chunks w)" for k
  proof -
    from that wf have "k \<in> set (loadedChunks w)"
      by (simp add: wf_world_def agree_def)
    with wf obtain cx cz where e: "k = chunkKey cx cz"
      unfolding wf_world_def canonical_keys_def by blast
    from that obtain c where c: "chunks w k = Some c" by auto
    with wf have "c = fst (generateChunk G (config w) cx cz)"
      by (simp add: wf_world_def generated_def e)
    with c show ?thesis using e split_chunkKey by blast
  qed
  have u: "k1 = k2"
    if "k1 \<in> dom (chunks w)" "k2 \<in> dom (chunks w)"
      "map Number (split_comma k1) = map Number (split_comma k2)" for k1 k2
  proof -
    from k [OF that(1)] obtain x1 z1 where 1: "k1 = chunkKey x1 z1" by blast
    from k [OF that(2)] obtain x2 z2 where 2: "k2 = chunkKey x2 z2" by blast
    from that(3) show ?thesis by (simp add: 1 2 split_chunkKey)
  qed
  show ?thesis using d k u by blast
qed

text \<open>An instance: after the first call in the scenario the chunks \<open>(1, 1)\<close> and \<open>(1, 0)\<close>
  have entries, and their keys are read back as different pairs.\<close>

theorem unique_cell_coordinates_witness:
  "\<exists>w1 e1. updateChunkLoading corner_ground (initial_world scenario_config Map.empty) = Some (w1, e1)
     \<and> reachable corner_ground w1
     \<and> chunkKey 1 1 \<in> dom (chunks w1) \<and> chunkKey 1 0 \<in> dom (chunks w1)
     \<and> distinct (loadedChunks w1)
     \<and> map Number (split_comma (chunkKey 1 1)) = [Some 1, Some 1]
     \<and> map Number (split_comma (chunkKey 1 1)) \<noteq> map Number (split_comma (chunkKey 1 0))"
proof -
  let ?w0 = "initial_world scenario_config Map.empty"
  obtain w1 e1 where
    t1: "updateChunkLoading corner_ground ?w0 = Some (w1, e1)"
    and r1: "reachable corner_ground w1"
    and q0: "playerChunk ?w0 = Some (0, 0)"
    using scenario_run by blast
  have a0: "agree ?w0" using wf_initial [of corner_ground] by (simp add: wf_world_def)
  have "resident w1 1 1" "resident w1 1 0"
    using resident_after_tick [OF a0 t1 q0, of 1 1] resident_after_tick [OF a0 t1 q0, of 1 0]
    by (simp_all add: cell_distance_def initial_world_def scenario_renderDistance)
  then have m: "chunkKey 1 1 \<in> dom (chunks w1)" "chunkKey 1 0 \<in> dom (chunks w1)"
    by (auto simp: resident_def)
  have ne: "chunkKey 1 1 \<noteq> chunkKey 1 0" by (simp add: chunkKey_inject)
  note th = unique_cell_coordinates [OF r1]
  from th have d: "distinct (loadedChunks w1)" by (rule conjunct1)
  from th have k: "\<forall>k \<in> dom (chunks w1). \<exists>cx cz. k = chunkKey cx cz
           \<and> map Number (split_comma k) = [Some cx, Some cz]
           \<and> chunks w1 k = Some (fst (generateChunk corner_ground (config w1) cx cz))"
    by (rule conjunct1 [OF conjunct2])
  from th have u: "\<forall>k1 \<in> dom (chunks w1). \<forall>k2 \<in> dom (chunks w1).
           map Number (split_comma k1) = map Number (split_comma k2) \<longrightarrow> k1 = k2"
    by (rule conjunct2 [OF conjunct2])
  from bspec [OF k m(1)] obtain cx cz where
    "chunkKey 1 1 = chunkKey cx cz"
    "map Number (split_comma (chunkKey 1 1)) = [Some cx, Some cz]"
    by auto
  then have p: "map Number (split_comma (chunkKey 1 1)) = [Some 1, Some 1]"
    by (simp add: chunkKey_inject)
  have q: "map Number (split_comma (chunkKey 1 1)) \<noteq> map Number (split_comma (chunkKey 1 0))"
  proof
    assume "map Number (split_comma (chunkKey 1 1)) = map Number (split_comma (chunkKey 1 0))"
    with bspec [OF bspec [OF u m(1)] m(2)] have "chunkKey 1 1 = chunkKey 1 0" by simp
    with ne show False by contradiction
  qed
  show ?thesis
    using t1 r1 m d p q by (intro exI conjI)
qed

text \<open>
  Claim C10. The set \<open>loadedChunks\<close> and the key set of the map \<open>chunks\<close> are equal in the
  constructor's state, each of \<open>loadChunk\<close>, \<open>unloadDistantChunks\<close>, \<open>updateChunkLoading\<close>
  and \<open>updatePlayerPosition\<close> keeps them equal, and so they are equal in every reachable
  state.
\<close>

theorem loadedChunks_agree_with_chunks:
  "agree (initial_world cfg envs)
   \<and> (agree w \<longrightarrow> agree (fst (loadChunk G w cx cz)))
   \<and> (agree w \<longrightarrow> agree (fst (unloadDistantChunks w pcx pcz)))
   \<and> (agree w \<longrightarrow> (\<forall>w' e. updateChunkLoading G w = Some (w', e) \<longrightarrow> agree w'))
   \<and> (agree w \<longrightarrow> agree (updatePlayerPosition w p))
   \<and> (reachable G w \<longrightarrow> set (loadedChunks w) = dom (chunks w))"
proof -
  have "agree (initial_world cfg envs)" by (simp add: agree_def initial_world_def)
  moreover have "agree w \<longrightarrow> agree (updatePlayerPosition w p)"
    by (simp add: agree_def updatePlayerPosition_def)
  moreover have "reachable G w \<longrightarrow> set (loadedChunks w) = dom (chunks w)"
    using reachable_wf [of G w] by (simp add: wf_world_def agree_def)
  ultimately show ?thesis
    using agree_loadChunk agree_unload agree_tick by blast
qed

text \<open>An instance, at the state after the first call in the scenario, in which nine chunks
  are loaded.\<close>

theorem loadedChunks_agree_with_chunks_witness:
  "\<exists>w1 e1.
     updateChunkLoading corner_ground (initial_world scenario_config Map.empty) = Some (w1, e1)
     \<and> reachable corner_ground w1 \<and> agree w1
     \<and> chunkKey 0 0 \<in> set (loadedChunks w1)
     \<and> set (loadedChunks w1) = dom (chunks w1)
     \<and> agree (fst (loadChunk corner_ground w1 5 5))
     \<and> agree (fst (unloadDistantChunks w1 3 0))
     \<and> agree (updatePlayerPosition w1 (Vector3 100 0 0))
     \<and> (\<exists>w2 e2. updateChunkLoading corner_ground w1 = Some (w2, e2) \<and> agree w2)"
proof -
  let ?w0 = "initial_world scenario_config Map.empty"
  obtain w1 e1 where t1: "updateChunkLoading corner_ground ?w0 = Some (w1, e1)"
    and r1: "reachable corner_ground w1" and q0: "playerChunk ?w0 = Some (0, 0)"
    using scenario_run by blast
  note th = loadedChunks_agree_with_chunks
    [where G = corner_ground and w = w1 and cx = 5 and cz = 5 and pcx = 3 and pcz = 0
      and p = "Vector3 100 0 0" and cfg = scenario_config and envs = Map.empty]
  from th r1 have s: "set (loadedChunks w1) = dom (chunks w1)" by blast
  then have a: "agree w1" by (simp add: agree_def)
  have k: "chunkKey 0 0 \<in> set (loadedChunks w1)"
    using tick_loaded_key [OF t1 q0, of 0 0] by (simp add: cell_distance_def initial_world_def scenario_renderDistance)
  have t2: "updateChunkLoading corner_ground w1 = Some (w1, [])" using t1 by (rule tick_idle)
  from th a have 1: "agree (fst (loadChunk corner_ground w1 5 5))" by blast
  from th a have 2: "agree (fst (unloadDistantChunks w1 3 0))" by blast
  from th a have 3: "agree (updatePlayerPosition w1 (Vector3 100 0 0))" by blast
  from th a t2 have 4: "\<exists>w2 e2. updateChunkLoading corner_ground w1 = Some (w2, e2) \<and> agree w2"
    by blast
  show ?thesis using t1 r1 a k s 1 2 3 4 by blast
qed

end
